theory Spec2Isabelle
  imports Main "HOL-Library.Word"
begin

section \<open>Machine model\<close>

text \<open>
  The dispatcher of the fuzzer is inline assembly for 32-bit x86 (\<^verbatim>\<open>lib/i386/io.h\<close>), so the
  embedding fixes the ILP32 data model of that target: \<^verbatim>\<open>int\<close>, \<^verbatim>\<open>unsigned long\<close>,
  \<^verbatim>\<open>size_t\<close> and \<^verbatim>\<open>uintptr_t\<close> are 32 bits wide, \<^verbatim>\<open>unsigned long long\<close> is 64 bits wide,
  and memory is little-endian.  Mutexes are left out: every function is modelled as the
  sequential code between its lock and unlock.

  Behaviour that C leaves undefined is a value of type \<open>fault\<close>; a function that can run
  into it returns \<open>fault + 'a\<close>.
\<close>

type_synonym byte = "8 word"
type_synonym ulong = "32 word"

datatype fault =
    NullDeref           \<comment> \<open>access through a null pointer\<close>
  | OutOfBounds         \<comment> \<open>access past the end of an allocated object\<close>
  | UninitRead          \<comment> \<open>read of memory that was never written\<close>
  | WildPointer         \<comment> \<open>access through an address that is no object of the model\<close>
  | SignedOverflow      \<comment> \<open>overflow of an \<^verbatim>\<open>int\<close>\<close>
  | ConversionOverflow  \<comment> \<open>floating value that does not fit the integer type it is cast to\<close>
  | NoReturnValue       \<comment> \<open>use of the value of a function that ended without \<^verbatim>\<open>return\<close>\<close>

datatype errno = EINVAL | ERANGE

text \<open>Little-endian reading and writing of a natural number in a byte sequence.\<close>

fun le_val :: "byte list \<Rightarrow> nat" where
  "le_val [] = 0"
| "le_val (b # bs) = unat b + 256 * le_val bs"

fun le_bytes :: "nat \<Rightarrow> nat \<Rightarrow> byte list" where
  "le_bytes 0 v = []"
| "le_bytes (Suc n) v = of_nat (v mod 256) # le_bytes n (v div 256)"

text \<open>Sequencing of steps that can run into undefined behaviour.\<close>

definition and_then :: "fault + 'a \<Rightarrow> ('a \<Rightarrow> fault + 'b) \<Rightarrow> fault + 'b" where
  "and_then m k = (case m of Inl e \<Rightarrow> Inl e | Inr x \<Rightarrow> k x)"

text \<open>\<^verbatim>\<open>memcpy(dst, src, n)\<close> on two objects given by their contents.\<close>

definition memcpy :: "byte list \<Rightarrow> byte list \<Rightarrow> nat \<Rightarrow> fault + byte list" where
  "memcpy dst src n =
     (if length src < n \<or> length dst < n then Inl OutOfBounds
      else Inr (take n src @ drop n dst))"

section \<open>The pseudo-random number generator (random.c)\<close>

text \<open>
  \<^verbatim>\<open>struct random { pthread_mutex_t mutex; size_t refcount; char *state; }\<close>, where
  \<^verbatim>\<open>state\<close> points to \<^verbatim>\<open>MAXSIZE\<close> bytes.
\<close>

record random =
  rnd_refcount :: nat
  rnd_state :: "byte list"

definition MAXSIZE :: nat where "MAXSIZE = 256"
definition MINSIZE :: nat where "MINSIZE = 2 * 3"

text \<open>
  \<^verbatim>\<open>erand48\<close> and \<^verbatim>\<open>jrand48\<close> are libc functions.  POSIX fixes them: the three 16-bit lanes
  \<^verbatim>\<open>xsubi[0..2]\<close> hold a 48-bit number \<open>X\<close>, lowest lane first; a call replaces it by
  \<open>(a * X + c) mod 2^48\<close> with \<open>a = 0x5DEECE66D\<close> and \<open>c = 0xB\<close>.  \<^verbatim>\<open>erand48\<close> returns the
  new \<open>X\<close> divided by \<open>2^48\<close> as a double, which is exact; the model returns the numerator.
  \<^verbatim>\<open>jrand48\<close> returns the upper 32 bits of the new \<open>X\<close>.
\<close>

definition drand48_iterate :: "nat \<Rightarrow> nat" where
  "drand48_iterate x = (0x5DEECE66D * x + 0xB) mod 2 ^ 48"

definition erand48 :: "byte list \<Rightarrow> nat \<times> byte list" where
  "erand48 s = (let x = drand48_iterate (le_val (take 6 s)) in (x, le_bytes 6 x @ drop 6 s))"

definition jrand48 :: "byte list \<Rightarrow> nat \<times> byte list" where
  "jrand48 s = (let x = drand48_iterate (le_val (take 6 s)) in (x div 2 ^ 16, le_bytes 6 x @ drop 6 s))"

text \<open>
  \<^verbatim>\<open>random_double\<close> locks \<^verbatim>\<open>random->mutex\<close> without a null check: a null handle is
  dereferenced.  The result stands for the double \<open>fst / 2^48\<close>.
\<close>

definition random_double :: "random option \<Rightarrow> fault + (nat \<times> random)" where
  "random_double random =
     (case random of
        None \<Rightarrow> Inl NullDeref
      | Some r \<Rightarrow> (let (x, s) = erand48 (rnd_state r) in Inr (x, r\<lparr>rnd_state := s\<rparr>)))"

definition random_ulong :: "random option \<Rightarrow> fault + (ulong \<times> random)" where
  "random_ulong random =
     (case random of
        None \<Rightarrow> Inl NullDeref
      | Some r \<Rightarrow> (let (x, s) = jrand48 (rnd_state r) in Inr (of_nat x, r\<lparr>rnd_state := s\<rparr>)))"

text \<open>
  \<^verbatim>\<open>(unsigned long)(random_double(random) * (end - begin + 1) + begin)\<close>.
  The factor \<^verbatim>\<open>end - begin + 1\<close> is computed in \<^verbatim>\<open>unsigned long\<close> and wraps; the product and
  the sum are computed in floating point and the cast truncates.  The model computes
  product and sum exactly.  For the ranges the fuzzer passes with constant bounds
  (\<open>[0,2]\<close>, \<open>[0,11]\<close>, \<open>[1,31]\<close>, \<open>[1,32]\<close>, \<open>[1,64]\<close>, \<open>[0,0xffff]\<close>) the double product
  and sum need at most 53 bits and are exact as well.
\<close>

definition random_ulong_with_range :: "random option \<Rightarrow> ulong \<Rightarrow> ulong \<Rightarrow> fault + (ulong \<times> random)" where
  "random_ulong_with_range random begin end =
     (case random_double random of
        Inl e \<Rightarrow> Inl e
      | Inr (x, r) \<Rightarrow>
          (let v = x * unat (end - begin + 1) div 2 ^ 48 + unat begin
           in if 2 ^ 32 \<le> v then Inl ConversionOverflow else Inr (of_nat v, r)))"

text \<open>\<^verbatim>\<open>#define random_number random_ulong\<close>,
  \<^verbatim>\<open>#define random_number_with_range random_ulong_with_range\<close>.\<close>

definition random_number :: "random option \<Rightarrow> fault + (ulong \<times> random)" where
  "random_number = random_ulong"

definition random_number_with_range :: "random option \<Rightarrow> ulong \<Rightarrow> ulong \<Rightarrow> fault + (ulong \<times> random)" where
  "random_number_with_range = random_ulong_with_range"

text \<open>\<^verbatim>\<open>(unsigned long)(pow(2, random_number_with_range(random, 1, 31)) + 1)\<close> and
  \<^verbatim>\<open>(unsigned long)(pow(2, random_number_with_range(random, 1, 32)) - 1)\<close>.\<close>

definition random_fermat_number :: "random option \<Rightarrow> fault + (ulong \<times> random)" where
  "random_fermat_number random =
     (case random_number_with_range random 1 31 of
        Inl e \<Rightarrow> Inl e
      | Inr (k, r) \<Rightarrow>
          (let v = 2 ^ unat k + (1::nat)
           in if 2 ^ 32 \<le> v then Inl ConversionOverflow else Inr (of_nat v, r)))"

definition random_mersenne_number :: "random option \<Rightarrow> fault + (ulong \<times> random)" where
  "random_mersenne_number random =
     (case random_number_with_range random 1 32 of
        Inl e \<Rightarrow> Inl e
      | Inr (k, r) \<Rightarrow>
          (let v = 2 ^ unat k - (1::nat)
           in if 2 ^ 32 \<le> v then Inl ConversionOverflow else Inr (of_nat v, r)))"

text \<open>
  \<^verbatim>\<open>random_get_state\<close> and \<^verbatim>\<open>random_set_state\<close> copy
  \<^verbatim>\<open>MIN(MAX(size, MINSIZE), MAXSIZE)\<close> bytes.  \<open>None\<close> is the return value \<^verbatim>\<open>NULL\<close> with
  \<^verbatim>\<open>errno = EINVAL\<close>, where nothing was copied.  \<^verbatim>\<open>random_get_state\<close> returns the
  contents of the output buffer.
\<close>

definition random_get_state :: "random option \<Rightarrow> byte list option \<Rightarrow> nat \<Rightarrow> fault + byte list option" where
  "random_get_state random state size' =
     (case (random, state) of
        (Some r, Some out) \<Rightarrow>
          (case memcpy out (rnd_state r) (min (max size' MINSIZE) MAXSIZE) of
             Inl e \<Rightarrow> Inl e
           | Inr out' \<Rightarrow> Inr (Some out'))
      | _ \<Rightarrow> Inr None)"

definition random_set_state :: "random option \<Rightarrow> byte list option \<Rightarrow> nat \<Rightarrow> fault + random option" where
  "random_set_state random state size' =
     (case (random, state) of
        (Some r, Some src) \<Rightarrow>
          (case memcpy (rnd_state r) src (min (max size' MINSIZE) MAXSIZE) of
             Inl e \<Rightarrow> Inl e
           | Inr s \<Rightarrow> Inr (Some (r\<lparr>rnd_state := s\<rparr>)))
      | _ \<Rightarrow> Inr None)"

text \<open>\<^verbatim>\<open>random_new\<close>, when its allocations succeed: a zeroed state and one reference.\<close>

definition random_new :: random where
  "random_new = \<lparr>rnd_refcount = 1, rnd_state = replicate MAXSIZE 0\<rparr>"


definition random_ref :: "random option \<Rightarrow> random option" where
  "random_ref random = map_option (\<lambda>r. r\<lparr>rnd_refcount := rnd_refcount r + 1\<rparr>) random"

subsection \<open>random_string\<close>

text \<open>
  The array \<^verbatim>\<open>charset\<close> of \<^verbatim>\<open>random_string\<close>.  The literal in the source is
  \<^verbatim>\<open>" !\"#$%%&'()*+,-./0123456789:;<=>?@A...Z[\\]^_`a...z{|}~"\<close>: the codes 32 to 126 in
  order, with the percent sign (37) twice, and the terminating NUL that every string
  literal has.
\<close>

definition charset :: "byte list" where
  "charset = map of_nat ([32..<38] @ [37] @ [38..<127]) @ [0]"

text \<open>
  The loop \<^verbatim>\<open>for (i = 0; i < length - 2; i++) string[i] = charset[...]\<close>.  \<open>bound\<close> is
  \<^verbatim>\<open>length - 2\<close>, already computed in \<^verbatim>\<open>size_t\<close>; the \<^verbatim>\<open>int\<close> \<open>i\<close> is converted to
  \<^verbatim>\<open>size_t\<close> for the comparison.  The index drawn is in
  \<^verbatim>\<open>[0, sizeof(charset) - 1]\<close>.  The result is the generator, the buffer and the final \<open>i\<close>.
\<close>

function random_string_loop :: "random \<Rightarrow> byte list \<Rightarrow> nat \<Rightarrow> nat \<Rightarrow> fault + (random \<times> byte list \<times> nat)" where
  "random_string_loop r string i bound =
     (if i < bound then
        (case random_number_with_range (Some r) 0 (of_nat (length charset - 1)) of
           Inl e \<Rightarrow> Inl e
         | Inr (k, r') \<Rightarrow>
             if length string \<le> i then Inl OutOfBounds
             else if i = 2 ^ 31 - 1 then Inl SignedOverflow
             else random_string_loop r' (string[i := charset ! unat k]) (i + 1) bound)
      else Inr (r, string, i))"
  by pat_completeness auto
termination
  by (relation "measure (\<lambda>(r, string, i, bound). bound - i)") auto

declare random_string_loop.simps [simp del]

text \<open>
  \<^verbatim>\<open>random_string(random, string, length)\<close>.  \<open>string\<close> is the object the pointer points
  to, of the size it was allocated with.  \<open>None\<close> is the return value \<^verbatim>\<open>NULL\<close> with
  \<^verbatim>\<open>errno = EINVAL\<close>; otherwise the function returns \<^verbatim>\<open>string\<close>, and the result holds the
  buffer and the generator after the call.
\<close>

definition random_string :: "random option \<Rightarrow> byte list option \<Rightarrow> ulong \<Rightarrow> fault + (byte list \<times> random) option" where
  "random_string random string length' =
     (case (random, string) of
        (Some r, Some s) \<Rightarrow>
          (case random_string_loop r s 0 (unat (length' - 2)) of
             Inl e \<Rightarrow> Inl e
           | Inr (r', s', i) \<Rightarrow>
               if length s' \<le> i then Inl OutOfBounds
               else Inr (Some (s'[i := 0], r')))
      | _ \<Rightarrow> Inr None)"


section \<open>The dynamic array (array.c)\<close>

text \<open>
  \<^verbatim>\<open>struct array { void *data; pthread_mutex_t mutex; size_t refcount; size_t element_size;
  float growth_factor; size_t length; size_t size; }\<close>.  The backing store \<^verbatim>\<open>data\<close> is kept
  at element granularity, one entry for each element the allocation has room for; \<open>None\<close>
  is an element that was never written (memory that \<^verbatim>\<open>realloc\<close> added).  \<^verbatim>\<open>size\<close> is the
  capacity in bytes that the array records.  Allocations are taken to succeed.
\<close>

record 'a array =
  arr_data :: "'a option list"
  arr_refcount :: nat
  element_size :: nat
  growth_factor :: nat
  arr_length :: nat
  arr_size :: nat

definition MINLENGTH :: nat where "MINLENGTH = 16"

text \<open>The macro \<^verbatim>\<open>_array_length_to_size\<close>, a product in \<^verbatim>\<open>size_t\<close>.\<close>

definition array_length_to_size :: "'a array \<Rightarrow> nat \<Rightarrow> nat" where
  "array_length_to_size a len = (element_size a * len) mod 2 ^ 32"

text \<open>\<^verbatim>\<open>array_new\<close>: \<^verbatim>\<open>data = calloc(MINLENGTH, size)\<close>, and then \<^verbatim>\<open>array->size = size\<close>.\<close>

definition array_new :: "nat \<Rightarrow> ('a::zero) array" where
  "array_new size' =
     \<lparr>arr_data = replicate MINLENGTH (Some 0), arr_refcount = 1, element_size = size',
      growth_factor = 2, arr_length = 0, arr_size = size'\<rparr>"

text \<open>\<^verbatim>\<open>realloc\<close> to room for \<open>slots\<close> elements: the old contents up to the new size, and
  unwritten memory after them.\<close>

definition realloc :: "'a option list \<Rightarrow> nat \<Rightarrow> 'a option list" where
  "realloc d slots = take slots d @ replicate (slots - length d) None"

text \<open>
  \<^verbatim>\<open>growth_factor\<close> is a \<^verbatim>\<open>float\<close>, so the loop of \<^verbatim>\<open>_array_grow\<close> multiplies in
  \<^verbatim>\<open>float\<close>.  \<open>float_round x\<close> is the value of the natural number \<open>x\<close> in IEEE single
  precision: \<open>x\<close> rounded to 24 significant bits, to the nearest value and to the even
  one of two nearest values.  (The numbers of the model stay far below the largest
  \<^verbatim>\<open>float\<close>.)
\<close>

fun bit_length :: "nat \<Rightarrow> nat" where
  "bit_length n = (if n = 0 then 0 else Suc (bit_length (n div 2)))"

declare bit_length.simps [simp del]

definition float_round :: "nat \<Rightarrow> nat" where
  "float_round x =
     (let e = bit_length x - 24;
          q = x div 2 ^ e;
          r = x mod 2 ^ e
      in if 2 * r < 2 ^ e \<or> (2 * r = 2 ^ e \<and> even q) then q * 2 ^ e else (q + 1) * 2 ^ e)"

text \<open>
  The loop \<^verbatim>\<open>for (m = 1, n = array->size; size > n; m++) n *= array->growth_factor * m;\<close>
  of \<^verbatim>\<open>_array_grow\<close>.  The assignment is \<^verbatim>\<open>n = n * (growth_factor * m)\<close>: \<^verbatim>\<open>m\<close> and \<^verbatim>\<open>n\<close>
  are converted to \<^verbatim>\<open>float\<close>, both products are \<^verbatim>\<open>float\<close> products, and the result is
  converted back to \<^verbatim>\<open>size_t\<close>, which is undefined when it does not fit.  The model
  rounds every conversion and product to single precision.  An implementation that
  evaluates \<^verbatim>\<open>float\<close> expressions in a wider format computes the same numbers as long
  as they are at most \<open>2^24\<close>, where nothing is rounded.  With \<open>n = 0\<close> the loop never
  ends: the result \<open>None\<close>.
\<close>

partial_function (option) array_grow_loop :: "nat \<Rightarrow> nat \<Rightarrow> nat \<Rightarrow> nat \<Rightarrow> (fault + nat) option" where
  "array_grow_loop gf size' m n =
     (if n < size' then
        (let p = float_round (float_round n * float_round (gf * float_round m)) in
         if 2 ^ 32 \<le> p then Some (Inl ConversionOverflow)
         else array_grow_loop gf size' ((m + 1) mod 2 ^ 32) p)
      else Some (Inr n))"

declare array_grow_loop.simps [code]

text \<open>
  The static functions \<^verbatim>\<open>_array_grow\<close>, \<^verbatim>\<open>_array_shrink\<close> and \<^verbatim>\<open>_array_set_length\<close>
  (a prime stands for the leading underscore).  The outer \<open>option\<close> is \<open>None\<close> when the
  call does not return; \<open>Inr None\<close> is the return value \<^verbatim>\<open>NULL\<close>, where the array is
  unchanged.
\<close>

definition array_grow' :: "'a array option \<Rightarrow> nat \<Rightarrow> (fault + 'a array option) option" where
  "array_grow' array len =
     (case array of
        None \<Rightarrow> Some (Inr None)
      | Some a \<Rightarrow>
          (let size' = array_length_to_size a len in
           if size' \<le> arr_size a then Some (Inr None)
           else
             (case array_grow_loop (growth_factor a) size' 1 (arr_size a) of
                None \<Rightarrow> None
              | Some (Inl e) \<Rightarrow> Some (Inl e)
              | Some (Inr n) \<Rightarrow>
                  Some (Inr (Some (a\<lparr>arr_data := realloc (arr_data a) (n div element_size a),
                                      arr_length := len, arr_size := n\<rparr>))))))"

definition array_shrink' :: "'a array option \<Rightarrow> nat \<Rightarrow> 'a array option" where
  "array_shrink' array len =
     (case array of
        None \<Rightarrow> None
      | Some a \<Rightarrow>
          if arr_size a < array_length_to_size a len then None
          else Some (a\<lparr>arr_length := len\<rparr>))"

definition array_set_length' :: "'a array option \<Rightarrow> nat \<Rightarrow> (fault + 'a array option) option" where
  "array_set_length' array len =
     (case array of
        None \<Rightarrow> Some (Inr None)
      | Some a \<Rightarrow>
          if array_length_to_size a len \<le> arr_size a then Some (Inr (array_shrink' array len))
          else array_grow' array len)"

text \<open>
  \<^verbatim>\<open>array_append_vals(array, data, count)\<close>.  \<open>data\<close> is the object the pointer points to.
  The function returns \<^verbatim>\<open>array\<close> also when \<^verbatim>\<open>_array_set_length\<close> failed; the result is
  the array after the call, \<open>None\<close> for the return value \<^verbatim>\<open>NULL\<close> of a null argument.
\<close>

definition array_append_vals :: "'a array option \<Rightarrow> 'a list option \<Rightarrow> nat \<Rightarrow> (fault + 'a array option) option" where
  "array_append_vals array data count =
     (case (array, data) of
        (Some a, Some vals) \<Rightarrow>
          (let len = arr_length a in
           case array_set_length' array ((len + count) mod 2 ^ 32) of
             None \<Rightarrow> None
           | Some (Inl e) \<Rightarrow> Some (Inl e)
           | Some (Inr None) \<Rightarrow> Some (Inr (Some a))
           | Some (Inr (Some a')) \<Rightarrow>
               if length vals < count \<or> length (arr_data a') < len + count then Some (Inl OutOfBounds)
               else Some (Inr (Some (a'\<lparr>arr_data := take len (arr_data a') @ map Some (take count vals)
                                                      @ drop (len + count) (arr_data a')\<rparr>))))
      | _ \<Rightarrow> Some (Inr None))"

text \<open>The macro \<^verbatim>\<open>array_append_val(array, data)\<close> with \<open>data\<close> pointing to one element.\<close>

definition array_append_val :: "'a array option \<Rightarrow> 'a \<Rightarrow> (fault + 'a array option) option" where
  "array_append_val array x = array_append_vals array (Some [x]) 1"

definition array_new_with_length :: "nat \<Rightarrow> nat \<Rightarrow> (fault + ('a::zero) array option) option" where
  "array_new_with_length size' len = array_set_length' (Some (array_new size')) len"

definition array_get_length :: "'a array option \<Rightarrow> nat" where
  "array_get_length array = (case array of None \<Rightarrow> 0 | Some a \<Rightarrow> arr_length a)"

definition array_ref :: "'a array option \<Rightarrow> 'a array option" where
  "array_ref array = map_option (\<lambda>a. a\<lparr>arr_refcount := arr_refcount a + 1\<rparr>) array"

text \<open>
  The macro \<^verbatim>\<open>array_index(array, type, index)\<close> reads \<^verbatim>\<open>array->data\<close> and indexes it without
  any check; \<open>array_index\<close> is its use as a value, \<open>array_index_set\<close> its use as the target of
  an assignment.
\<close>

definition array_index :: "'a array option \<Rightarrow> nat \<Rightarrow> fault + 'a" where
  "array_index array i =
     (case array of
        None \<Rightarrow> Inl NullDeref
      | Some a \<Rightarrow>
          if length (arr_data a) \<le> i then Inl OutOfBounds
          else (case arr_data a ! i of None \<Rightarrow> Inl UninitRead | Some v \<Rightarrow> Inr v))"

definition array_index_set :: "'a array option \<Rightarrow> nat \<Rightarrow> 'a \<Rightarrow> fault + 'a array" where
  "array_index_set array i v =
     (case array of
        None \<Rightarrow> Inl NullDeref
      | Some a \<Rightarrow>
          if length (arr_data a) \<le> i then Inl OutOfBounds
          else Inr (a\<lparr>arr_data := (arr_data a)[i := Some v]\<rparr>))"

text \<open>The elements of an array, for the statements below: the first \<^verbatim>\<open>length\<close> entries.\<close>

definition array_elements :: "'a array \<Rightarrow> 'a option list" where
  "array_elements a = take (arr_length a) (arr_data a)"





section \<open>Port specifications (iofuzzer_parse_ports)\<close>

definition MAXPORT :: ulong where "MAXPORT = 0xffff"

text \<open>
  \<^verbatim>\<open>strtok_r\<close> and \<^verbatim>\<open>strtoul\<close> are libc functions, modelled after the C standard.
  \<open>strtok_r s delim\<close> takes the text that the save pointer points to and a single
  delimiter: it skips leading delimiters, and returns the token up to the next delimiter
  together with the text after that delimiter, or \<open>None\<close> for \<^verbatim>\<open>NULL\<close> when only delimiters
  are left.
\<close>

definition strtok_r :: "string \<Rightarrow> char \<Rightarrow> (string \<times> string) option" where
  "strtok_r s delim =
     (let s' = dropWhile (\<lambda>c. c = delim) s in
      if s' = [] then None
      else Some (takeWhile (\<lambda>c. c \<noteq> delim) s', drop 1 (dropWhile (\<lambda>c. c \<noteq> delim) s')))"

definition isspace :: "char \<Rightarrow> bool" where
  "isspace c = ((of_char c :: nat) = 32 \<or> (9 \<le> (of_char c :: nat) \<and> (of_char c :: nat) \<le> 13))"

text \<open>The value of a digit or letter, and 36 for any other character.\<close>

definition digit_value :: "char \<Rightarrow> nat" where
  "digit_value c =
     (let n = of_char c :: nat in
      if 48 \<le> n \<and> n \<le> 57 then n - 48
      else if 97 \<le> n \<and> n \<le> 122 then n - 87
      else if 65 \<le> n \<and> n \<le> 90 then n - 55
      else 36)"

fun digits_value :: "nat \<Rightarrow> nat \<Rightarrow> string \<Rightarrow> nat" where
  "digits_value base acc [] = acc"
| "digits_value base acc (c # cs) =
     (if digit_value c < base then digits_value base (acc * base + digit_value c) cs else acc)"

text \<open>
  \<^verbatim>\<open>strtoul(s, NULL, 0)\<close> and \<^verbatim>\<open>strtoull(s, NULL, 0)\<close>: white space, an optional sign, then a hexadecimal number after
  \<^verbatim>\<open>0x\<close>, an octal number after \<^verbatim>\<open>0\<close>, or a decimal number; the longest run of digits
  counts, and no digit at all gives 0.  A value that does not fit gives the maximum and
  \<^verbatim>\<open>ERANGE\<close>.  The second component is the value \<^verbatim>\<open>errno\<close> is set to, if any; glibc, the
  library of the Linux target, never sets \<^verbatim>\<open>EINVAL\<close> for a valid base.
\<close>

definition strto_unsigned :: "nat \<Rightarrow> string \<Rightarrow> nat \<times> errno option" where
  "strto_unsigned bits s =
     (let s1 = dropWhile isspace s;
          neg = (case s1 of c # _ \<Rightarrow> c = CHR ''-'' | [] \<Rightarrow> False);
          s2 = (case s1 of c # cs \<Rightarrow> if c = CHR ''-'' \<or> c = CHR ''+'' then cs else s1 | [] \<Rightarrow> s1);
          hex = (case s2 of
                   c0 # cx # c # _ \<Rightarrow> c0 = CHR ''0'' \<and> (cx = CHR ''x'' \<or> cx = CHR ''X'') \<and> digit_value c < 16
                 | _ \<Rightarrow> False);
          v = (if hex then digits_value 16 0 (drop 2 s2)
               else if (case s2 of c # _ \<Rightarrow> c = CHR ''0'' | [] \<Rightarrow> False) then digits_value 8 0 s2
               else digits_value 10 0 s2)
      in if 2 ^ bits \<le> v then (2 ^ bits - 1, Some ERANGE)
         else (if neg then (2 ^ bits - v) mod 2 ^ bits else v, None))"

definition strtoul :: "string \<Rightarrow> ulong \<times> errno option" where
  "strtoul s = (let (v, e) = strto_unsigned 32 s in (of_nat v, e))"


text \<open>
  The body of the outer loop of \<^verbatim>\<open>iofuzzer_parse_ports\<close> up to the inner \<^verbatim>\<open>for\<close>: what one
  comma-separated token \<open>str\<close> stands for.  \<open>NoRange\<close>: the first \<^verbatim>\<open>strtok_r(substr, "-")\<close>
  returned \<^verbatim>\<open>NULL\<close>.  \<open>BadNumber\<close>: \<^verbatim>\<open>errno == EINVAL\<close> after a \<^verbatim>\<open>strtoul\<close>, the
  \<^verbatim>\<open>goto err\<close>.  \<open>FromTo begin end\<close>: the bounds the inner loop runs over.
\<close>

datatype port_range = NoRange | BadNumber | FromTo ulong ulong

definition parse_range :: "string \<Rightarrow> port_range" where
  "parse_range str =
     (case strtok_r str CHR ''-'' of
        None \<Rightarrow> NoRange
      | Some (substr, save) \<Rightarrow>
          (let (begin, e) = strtoul substr in
           if e = Some EINVAL then BadNumber
           else
             (case strtok_r save CHR ''-'' of
                None \<Rightarrow> FromTo begin begin
              | Some (substr', save') \<Rightarrow>
                  (let (end, e') = strtoul substr' in
                   if e' = Some EINVAL then BadNumber
                   else FromTo begin (if MAXPORT < end then MAXPORT else end)))))"

text \<open>The loop \<^verbatim>\<open>for (port = begin; port <= end; port++) array_append_val(ports, &port);\<close>.
  It does not end when \<open>end\<close> is \<^verbatim>\<open>ULONG_MAX\<close>.\<close>

partial_function (option) append_ports :: "ulong array option \<Rightarrow> ulong \<Rightarrow> ulong \<Rightarrow> (fault + ulong array option) option" where
  "append_ports ports port end =
     (if port \<le> end then
        (case array_append_val ports port of
           None \<Rightarrow> None
         | Some (Inl e) \<Rightarrow> Some (Inl e)
         | Some (Inr ports') \<Rightarrow> append_ports ports' (port + 1) end)
      else Some (Inr ports))"

declare append_ports.simps [code]

text \<open>The outer loop over the tokens between commas; \<open>rest\<close> is the text not yet
  tokenised.\<close>

partial_function (option) parse_ports_loop :: "ulong array option \<Rightarrow> string \<Rightarrow> (fault + ulong array option) option" where
  "parse_ports_loop ports rest =
     (case strtok_r rest CHR '','' of
        None \<Rightarrow> Some (Inr ports)
      | Some (str, save) \<Rightarrow>
          (case parse_range str of
             NoRange \<Rightarrow> parse_ports_loop ports save
           | BadNumber \<Rightarrow> Some (Inr None)
           | FromTo begin end \<Rightarrow>
               (case append_ports ports begin end of
                  None \<Rightarrow> None
                | Some (Inl e) \<Rightarrow> Some (Inl e)
                | Some (Inr ports') \<Rightarrow> parse_ports_loop ports' save)))"

declare parse_ports_loop.simps [code]

text \<open>\<^verbatim>\<open>iofuzzer_parse_ports(string)\<close>; \<open>Inr None\<close> is the return value \<^verbatim>\<open>NULL\<close>.\<close>

definition iofuzzer_parse_ports :: "string option \<Rightarrow> (fault + ulong array option) option" where
  "iofuzzer_parse_ports string =
     (case string of
        None \<Rightarrow> Some (Inr None)
      | Some s \<Rightarrow> parse_ports_loop (Some (array_new 4)) s)"

section \<open>The fuzzer (iofuzzer.c)\<close>

definition NUM_VARIATES :: nat where "NUM_VARIATES = 7"

text \<open>The enumeration \<^verbatim>\<open>enum { FUNCS NUM_FUNCS }\<close> that the X-macro \<^verbatim>\<open>FUNCS\<close> of
  \<^verbatim>\<open>io.h\<close> expands to, in its order.\<close>

datatype func =
    func_inb | func_inw | func_inl | func_insb | func_insw | func_insl
  | func_outb | func_outw | func_outl | func_outsb | func_outsw | func_outsl

definition FUNCS :: "func list" where
  "FUNCS = [func_inb, func_inw, func_inl, func_insb, func_insw, func_insl,
            func_outb, func_outw, func_outl, func_outsb, func_outsw, func_outsl]"

definition NUM_FUNCS :: nat where "NUM_FUNCS = length FUNCS"

text \<open>
  \<^verbatim>\<open>struct iofuzzer { pthread_mutex_t mutex; size_t refcount; array_t *ports;
  random_t *random; char state[8]; char *variate5; char *variate6; array_t *variates; }\<close>.

  A pointer to an array or to a generator is modelled by the object it points to, \<open>None\<close>
  for a null pointer: a fuzzer is modelled together with its port list, its generator and
  its variate array.  Other holders of the same generator are outside the model.
  \<^verbatim>\<open>variate5\<close> and \<^verbatim>\<open>variate6\<close> are the addresses of the two scratch buffers, whose
  contents are \<open>buffer5\<close> and \<open>buffer6\<close>.  \<open>io_trace\<close> lists the port instructions executed
  so far, each with the values bound to the registers a, b, c, d, S and D.
\<close>

record iofuzzer =
  fz_refcount :: nat
  ports :: "ulong array option"
  fz_random :: "random option"
  state :: "byte list"
  variate5 :: ulong
  variate6 :: ulong
  variates :: "ulong array option"
  buffer5 :: "byte list"
  buffer6 :: "byte list"
  io_trace :: "(func \<times> ulong list) list"

subsection \<open>The port instructions (io.h)\<close>

text \<open>
  The twelve functions \<^verbatim>\<open>_iofuzzer_inb\<close> ... \<^verbatim>\<open>_iofuzzer_outsl\<close> differ only in the
  instruction.  Each reads \<^verbatim>\<open>variates[1..6]\<close> and executes its instruction with these
  values in the registers.  \<^verbatim>\<open>rep ins\<close> stores count times width bytes from the device
  at the address in D, \<^verbatim>\<open>rep outs\<close> loads as many from the address in S; \<open>dev\<close> gives the
  bytes that the device delivers.  The only memory of the model are the two scratch
  buffers, addressed at their start.
\<close>

fun func_width :: "func \<Rightarrow> nat" where
  "func_width func_inb = 1" | "func_width func_inw = 2" | "func_width func_inl = 4"
| "func_width func_insb = 1" | "func_width func_insw = 2" | "func_width func_insl = 4"
| "func_width func_outb = 1" | "func_width func_outw = 2" | "func_width func_outl = 4"
| "func_width func_outsb = 1" | "func_width func_outsw = 2" | "func_width func_outsl = 4"

definition is_ins :: "func \<Rightarrow> bool" where
  "is_ins fn = (fn = func_insb \<or> fn = func_insw \<or> fn = func_insl)"

definition is_outs :: "func \<Rightarrow> bool" where
  "is_outs fn = (fn = func_outsb \<or> fn = func_outsw \<or> fn = func_outsl)"

definition store_bytes :: "iofuzzer \<Rightarrow> ulong \<Rightarrow> byte list \<Rightarrow> fault + iofuzzer" where
  "store_bytes f p bs =
     (if bs = [] then Inr f
      else if p = 0 then Inl NullDeref
      else if p = variate5 f then
        (if length (buffer5 f) < length bs then Inl OutOfBounds
         else Inr (f\<lparr>buffer5 := bs @ drop (length bs) (buffer5 f)\<rparr>))
      else if p = variate6 f then
        (if length (buffer6 f) < length bs then Inl OutOfBounds
         else Inr (f\<lparr>buffer6 := bs @ drop (length bs) (buffer6 f)\<rparr>))
      else Inl WildPointer)"

definition load_bytes :: "iofuzzer \<Rightarrow> ulong \<Rightarrow> nat \<Rightarrow> fault + byte list" where
  "load_bytes f p n =
     (if n = 0 then Inr []
      else if p = 0 then Inl NullDeref
      else if p = variate5 f then
        (if length (buffer5 f) < n then Inl OutOfBounds else Inr (take n (buffer5 f)))
      else if p = variate6 f then
        (if length (buffer6 f) < n then Inl OutOfBounds else Inr (take n (buffer6 f)))
      else Inl WildPointer)"

definition iofuzzer_io :: "(nat \<Rightarrow> byte) \<Rightarrow> func \<Rightarrow> iofuzzer \<Rightarrow> fault + iofuzzer" where
  "iofuzzer_io dev fn f =
     and_then (array_index (variates f) 1) (\<lambda>a.
     and_then (array_index (variates f) 2) (\<lambda>b.
     and_then (array_index (variates f) 3) (\<lambda>c.
     and_then (array_index (variates f) 4) (\<lambda>d.
     and_then (array_index (variates f) 5) (\<lambda>si.
     and_then (array_index (variates f) 6) (\<lambda>di.
       let f' = f\<lparr>io_trace := io_trace f @ [(fn, [a, b, c, d, si, di])]\<rparr>;
           n = unat c * func_width fn
       in if is_ins fn then store_bytes f' di (map dev [0..<n])
          else if is_outs fn then and_then (load_bytes f' si n) (\<lambda>bs. Inr f')
          else Inr f'))))))"

subsection \<open>The variate generator\<close>

text \<open>A call of a function of random.c on \<^verbatim>\<open>fuzzer->random\<close>: the generator it leaves is
  the generator of the fuzzer afterwards.\<close>

definition draw :: "iofuzzer \<Rightarrow> (random option \<Rightarrow> fault + (ulong \<times> random)) \<Rightarrow> fault + (ulong \<times> iofuzzer)" where
  "draw f g = and_then (g (fz_random f)) (\<lambda>(v, r). Inr (v, f\<lparr>fz_random := Some r\<rparr>))"

text \<open>The assignment \<^verbatim>\<open>variates[i] = v\<close> through the pointer
  \<^verbatim>\<open>&array_index(fuzzer->variates, uintptr_t, 0)\<close>.\<close>

definition set_variate :: "iofuzzer \<Rightarrow> nat \<Rightarrow> ulong \<Rightarrow> fault + iofuzzer" where
  "set_variate f i v = and_then (array_index_set (variates f) i v) (\<lambda>a. Inr (f\<lparr>variates := Some a\<rparr>))"

text \<open>\<^verbatim>\<open>_iofuzzer_random_number\<close>.  Its \<^verbatim>\<open>switch\<close> has the cases 0, 1 and 2 and no default;
  after it the function ends without a \<^verbatim>\<open>return\<close>.\<close>

definition iofuzzer_random_number' :: "iofuzzer \<Rightarrow> fault + (ulong \<times> iofuzzer)" where
  "iofuzzer_random_number' f =
     and_then (draw f (\<lambda>r. random_number_with_range r 0 2)) (\<lambda>(k, f).
       if k = 0 then draw f random_number
       else if k = 1 then draw f random_fermat_number
       else if k = 2 then draw f random_mersenne_number
       else Inl NoReturnValue)"

text \<open>
  \<^verbatim>\<open>variates[i] = (uintptr_t)random_string(fuzzer->random, (char *)variates[i], MAXSIZE)\<close>
  for \<open>i = 5\<close> and \<open>i = 6\<close>.  The second component of the result is the value that
  \<^verbatim>\<open>errno\<close> is set to, if any.
\<close>

definition randomize_string :: "iofuzzer \<Rightarrow> nat \<Rightarrow> fault + (iofuzzer \<times> errno option)" where
  "randomize_string f i =
     and_then (array_index (variates f) i) (\<lambda>p.
       if p = 0 then
         and_then (random_string (fz_random f) None (of_nat MAXSIZE)) (\<lambda>_.
         and_then (set_variate f i 0) (\<lambda>f'. Inr (f', Some EINVAL)))
       else if p = variate5 f then
         and_then (random_string (fz_random f) (Some (buffer5 f)) (of_nat MAXSIZE)) (\<lambda>res.
           case res of
             None \<Rightarrow> and_then (set_variate f i 0) (\<lambda>f'. Inr (f', Some EINVAL))
           | Some (s, r) \<Rightarrow>
               and_then (set_variate (f\<lparr>fz_random := Some r, buffer5 := s\<rparr>) i p) (\<lambda>f'. Inr (f', None)))
       else if p = variate6 f then
         and_then (random_string (fz_random f) (Some (buffer6 f)) (of_nat MAXSIZE)) (\<lambda>res.
           case res of
             None \<Rightarrow> and_then (set_variate f i 0) (\<lambda>f'. Inr (f', Some EINVAL))
           | Some (s, r) \<Rightarrow>
               and_then (set_variate (f\<lparr>fz_random := Some r, buffer6 := s\<rparr>) i p) (\<lambda>f'. Inr (f', None)))
       else if fz_random f = None then
         and_then (set_variate f i 0) (\<lambda>f'. Inr (f', Some EINVAL))
       else Inl WildPointer)"

text \<open>
  \<^verbatim>\<open>_iofuzzer_randomize\<close>, for a fuzzer that is not null (every caller has checked that).
  \<^verbatim>\<open>random_get_state\<close> fails without effect for a null generator; the first draw then
  dereferences it.
\<close>

definition iofuzzer_randomize' :: "iofuzzer \<Rightarrow> fault + (iofuzzer \<times> errno option)" where
  "iofuzzer_randomize' f0 =
     and_then (random_get_state (fz_random f0) (Some (state f0)) 8) (\<lambda>st.
     let f = (case st of None \<Rightarrow> f0 | Some s \<Rightarrow> f0\<lparr>state := s\<rparr>) in
     if variates f = None then Inl NullDeref else
     and_then (draw f (\<lambda>r. random_number_with_range r 0 (of_nat (NUM_FUNCS - 1)))) (\<lambda>(v, f).
     and_then (set_variate f 0 v) (\<lambda>f.
     and_then (iofuzzer_random_number' f) (\<lambda>(v, f).
     and_then (set_variate f 1 v) (\<lambda>f.
     and_then (iofuzzer_random_number' f) (\<lambda>(v, f).
     and_then (set_variate f 2 v) (\<lambda>f.
     and_then (draw f (\<lambda>r. random_number_with_range r 1 (of_nat (MAXSIZE div 4)))) (\<lambda>(v, f).
     and_then (set_variate f 3 v) (\<lambda>f.
     and_then
       (if ports f \<noteq> None then
          and_then (draw f (\<lambda>r. random_number_with_range r 0 (of_nat (array_get_length (ports f)) - 1))) (\<lambda>(k, f).
          and_then (array_index (ports f) (unat k)) (\<lambda>v. Inr (v, f)))
        else draw f (\<lambda>r. random_number_with_range r 0 MAXPORT)) (\<lambda>(v, f).
     and_then (set_variate f 4 v) (\<lambda>f.
     and_then (randomize_string f 5) (\<lambda>(f, e5).
     and_then (randomize_string f 6) (\<lambda>(f, e6).
       Inr (f, (case e6 of None \<Rightarrow> e5 | Some e \<Rightarrow> Some e)))))))))))))))"

text \<open>
  \<^verbatim>\<open>_iofuzzer_set_state\<close>.  \<open>state\<close> is the object the pointer points to.  The first
  component of the result is \<open>None\<close> for the return value \<^verbatim>\<open>NULL\<close>, where nothing has
  changed, and the fuzzer after the call otherwise.
\<close>

definition iofuzzer_set_state' :: "iofuzzer \<Rightarrow> byte list option \<Rightarrow> nat \<Rightarrow> fault + (iofuzzer option \<times> errno option)" where
  "iofuzzer_set_state' f st size' =
     (if st = None then Inr (None, Some EINVAL)
      else
        and_then (random_set_state (fz_random f) st size') (\<lambda>r.
          case r of
            None \<Rightarrow> Inr (None, Some EINVAL)
          | Some r' \<Rightarrow>
              and_then (iofuzzer_randomize' (f\<lparr>fz_random := Some r'\<rparr>)) (\<lambda>(f', e). Inr (Some f', e))))"

text \<open>\<^verbatim>\<open>_iofuzzer_iterate\<close>: the \<^verbatim>\<open>switch (variates[0])\<close> over the twelve functions, without
  a default, and then the generator.\<close>

definition iofuzzer_iterate' :: "(nat \<Rightarrow> byte) \<Rightarrow> iofuzzer \<Rightarrow> fault + (iofuzzer \<times> errno option)" where
  "iofuzzer_iterate' dev f =
     and_then (array_index (variates f) 0) (\<lambda>v0.
     and_then (if unat v0 < NUM_FUNCS then iofuzzer_io dev (FUNCS ! unat v0) f else Inr f)
       iofuzzer_randomize')"

subsection \<open>The public functions\<close>

text \<open>
  A public function is called with a pointer to a fuzzer, \<open>None\<close> for the null pointer.
  Its reply has three parts: the value returned, the value that \<^verbatim>\<open>errno\<close> was set to
  during the call, if any, and the fuzzer after the call.  A function that returns
  \<^verbatim>\<open>iofuzzer_t *\<close> returns its argument or \<^verbatim>\<open>NULL\<close>.
\<close>

datatype fuzzer_ptr = NULL | FUZZER

type_synonym 'r reply = "'r \<times> errno option \<times> iofuzzer option"

text \<open>The value of \<^verbatim>\<open>errno\<close> after two steps in a row.\<close>

definition errno_then :: "errno option \<Rightarrow> errno option \<Rightarrow> errno option" where
  "errno_then e e' = (case e' of None \<Rightarrow> e | Some x \<Rightarrow> Some x)"

definition iofuzzer_get_ports :: "iofuzzer option \<Rightarrow> ulong array option reply" where
  "iofuzzer_get_ports fuzzer =
     (case fuzzer of None \<Rightarrow> (None, Some EINVAL, None) | Some f \<Rightarrow> (ports f, None, Some f))"

definition iofuzzer_get_random :: "iofuzzer option \<Rightarrow> random option reply" where
  "iofuzzer_get_random fuzzer =
     (case fuzzer of None \<Rightarrow> (None, Some EINVAL, None) | Some f \<Rightarrow> (fz_random f, None, Some f))"

definition iofuzzer_get_variates :: "iofuzzer option \<Rightarrow> ulong array option reply" where
  "iofuzzer_get_variates fuzzer =
     (case fuzzer of None \<Rightarrow> (None, Some EINVAL, None) | Some f \<Rightarrow> (variates f, None, Some f))"

text \<open>\<^verbatim>\<open>iofuzzer_get_state(fuzzer, state, size)\<close>; the value returned comes with the object
  that \<^verbatim>\<open>state\<close> points to after the call.  The copy is
  \<^verbatim>\<open>memcpy(state, fuzzer->state, sizeof(fuzzer->state))\<close>.\<close>

definition iofuzzer_get_state :: "iofuzzer option \<Rightarrow> byte list option \<Rightarrow> nat \<Rightarrow> fault + (fuzzer_ptr \<times> byte list option) reply" where
  "iofuzzer_get_state fuzzer st size' =
     (case (fuzzer, st) of
        (Some f, Some buf) \<Rightarrow>
          and_then (memcpy buf (state f) 8) (\<lambda>buf'. Inr ((FUZZER, Some buf'), None, Some f))
      | _ \<Rightarrow> Inr ((NULL, st), Some EINVAL, fuzzer))"

definition iofuzzer_iterate :: "(nat \<Rightarrow> byte) \<Rightarrow> iofuzzer option \<Rightarrow> fault + fuzzer_ptr reply" where
  "iofuzzer_iterate dev fuzzer =
     (case fuzzer of
        None \<Rightarrow> Inr (NULL, Some EINVAL, None)
      | Some f \<Rightarrow> and_then (iofuzzer_iterate' dev f) (\<lambda>(f', e). Inr (FUZZER, e, Some f')))"

definition iofuzzer_iterate_with_state :: "(nat \<Rightarrow> byte) \<Rightarrow> iofuzzer option \<Rightarrow> byte list option \<Rightarrow> nat \<Rightarrow> fault + fuzzer_ptr reply" where
  "iofuzzer_iterate_with_state dev fuzzer st size' =
     (case fuzzer of
        None \<Rightarrow> Inr (NULL, Some EINVAL, None)
      | Some f \<Rightarrow>
          and_then (iofuzzer_set_state' f st size') (\<lambda>(r, e).
            case r of
              None \<Rightarrow> Inr (NULL, e, Some f)
            | Some f1 \<Rightarrow>
                and_then (iofuzzer_iterate' dev f1) (\<lambda>(f2, e'). Inr (FUZZER, errno_then e e', Some f2))))"

definition iofuzzer_ref :: "iofuzzer option \<Rightarrow> fuzzer_ptr reply" where
  "iofuzzer_ref fuzzer =
     (case fuzzer of
        None \<Rightarrow> (NULL, Some EINVAL, None)
      | Some f \<Rightarrow> (FUZZER, None, Some (f\<lparr>fz_refcount := (fz_refcount f + 1) mod 2 ^ 32\<rparr>)))"

text \<open>
  \<^verbatim>\<open>iofuzzer_free\<close> returns \<^verbatim>\<open>NULL\<close> for every argument and sets no \<^verbatim>\<open>errno\<close>: for a null
  fuzzer it does nothing, and a fuzzer that is not null is released with all that it
  holds, so there is none after the call.
\<close>

definition iofuzzer_free :: "iofuzzer option \<Rightarrow> fuzzer_ptr reply" where
  "iofuzzer_free fuzzer =
     (case fuzzer of
        None \<Rightarrow> (NULL, None, None)
      | Some f \<Rightarrow> (NULL, None, None))"

text \<open>
  \<^verbatim>\<open>iofuzzer_new\<close>, when its allocations succeed.  The parameters are the addresses that
  \<^verbatim>\<open>calloc\<close> returns for the two scratch buffers.  \<^verbatim>\<open>calloc\<close> zeroes the structure and
  the buffers; \<^verbatim>\<open>sizeof(uintptr_t)\<close> is 4.
\<close>

definition iofuzzer_new :: "ulong \<Rightarrow> ulong \<Rightarrow> (fault + iofuzzer option) option" where
  "iofuzzer_new a5 a6 =
     (case array_new_with_length 4 NUM_VARIATES of
        None \<Rightarrow> None
      | Some (Inl e) \<Rightarrow> Some (Inl e)
      | Some (Inr None) \<Rightarrow> Some (Inr None)
      | Some (Inr (Some va)) \<Rightarrow>
          Some
            (and_then (set_variate
                \<lparr>fz_refcount = 0, ports = None, fz_random = Some random_new, state = replicate 8 0,
                 variate5 = a5, variate6 = a6, variates = Some va,
                 buffer5 = replicate MAXSIZE 0, buffer6 = replicate MAXSIZE 0, io_trace = []\<rparr> 5 a5) (\<lambda>f.
             and_then (set_variate f 6 a6) (\<lambda>f.
             and_then (iofuzzer_randomize' f) (\<lambda>(f, e).
               Inr (snd (snd (iofuzzer_ref (Some f)))))))))"

text \<open>
  The setters.  \<^verbatim>\<open>iofuzzer_set_ports\<close>, \<^verbatim>\<open>iofuzzer_set_random\<close> and
  \<^verbatim>\<open>iofuzzer_set_variates\<close> check only the fuzzer for null.  Each releases the object
  that the fuzzer held, which the fuzzer of the model then no longer has, stores the
  argument and takes a reference to it; \<^verbatim>\<open>array_ref\<close> and \<^verbatim>\<open>random_ref\<close> of a null
  pointer set \<^verbatim>\<open>errno = EINVAL\<close>.  \<^verbatim>\<open>iofuzzer_set_ports\<close> goes on with
  \<^verbatim>\<open>_iofuzzer_set_state(fuzzer, fuzzer->state, sizeof(fuzzer->state))\<close> and
  \<^verbatim>\<open>_iofuzzer_randomize(fuzzer)\<close>, and ignores what they return.
\<close>

definition iofuzzer_set_ports :: "iofuzzer option \<Rightarrow> ulong array option \<Rightarrow> fault + fuzzer_ptr reply" where
  "iofuzzer_set_ports fuzzer ports' =
     (case fuzzer of
        None \<Rightarrow> Inr (NULL, Some EINVAL, None)
      | Some f \<Rightarrow>
          (let f1 = f\<lparr>ports := array_ref ports'\<rparr>;
               e0 = (if ports' = None then Some EINVAL else None)
           in and_then (iofuzzer_set_state' f1 (Some (state f1)) 8) (\<lambda>(r, e1).
              and_then (iofuzzer_randomize' (case r of None \<Rightarrow> f1 | Some f2 \<Rightarrow> f2)) (\<lambda>(f3, e2).
                Inr (FUZZER, errno_then (errno_then e0 e1) e2, Some f3)))))"

definition iofuzzer_set_random :: "iofuzzer option \<Rightarrow> random option \<Rightarrow> fault + fuzzer_ptr reply" where
  "iofuzzer_set_random fuzzer random' =
     (case fuzzer of
        None \<Rightarrow> Inr (NULL, Some EINVAL, None)
      | Some f \<Rightarrow>
          (let f1 = f\<lparr>fz_random := random_ref random'\<rparr>;
               e0 = (if random' = None then Some EINVAL else None)
           in and_then (iofuzzer_randomize' f1) (\<lambda>(f2, e1). Inr (FUZZER, errno_then e0 e1, Some f2))))"

definition iofuzzer_set_state :: "iofuzzer option \<Rightarrow> byte list option \<Rightarrow> nat \<Rightarrow> fault + fuzzer_ptr reply" where
  "iofuzzer_set_state fuzzer st size' =
     (case (fuzzer, st) of
        (Some f, Some _) \<Rightarrow>
          and_then (iofuzzer_set_state' f st size') (\<lambda>(r, e).
            case r of
              None \<Rightarrow> Inr (NULL, e, Some f)
            | Some f' \<Rightarrow> Inr (FUZZER, e, Some f'))
      | _ \<Rightarrow> Inr (NULL, Some EINVAL, fuzzer))"

text \<open>
  \<^verbatim>\<open>iofuzzer_new_with_state\<close>: the fuzzer returned, \<open>None\<close> for \<^verbatim>\<open>NULL\<close>, and the value that
  \<^verbatim>\<open>errno\<close> was set to by \<^verbatim>\<open>iofuzzer_set_state\<close>, if any.  When \<^verbatim>\<open>iofuzzer_set_state\<close>
  returns \<^verbatim>\<open>NULL\<close>, the new fuzzer is released with \<^verbatim>\<open>iofuzzer_unref\<close>, which sets no
  \<^verbatim>\<open>errno\<close>, and \<^verbatim>\<open>NULL\<close> is returned.
\<close>

definition iofuzzer_new_with_state :: "ulong \<Rightarrow> ulong \<Rightarrow> byte list option \<Rightarrow> nat \<Rightarrow> (fault + iofuzzer option \<times> errno option) option" where
  "iofuzzer_new_with_state a5 a6 st size' =
     (case iofuzzer_new a5 a6 of
        None \<Rightarrow> None
      | Some (Inl e) \<Rightarrow> Some (Inl e)
      | Some (Inr None) \<Rightarrow> Some (Inr (None, None))
      | Some (Inr (Some f)) \<Rightarrow>
          Some (and_then (iofuzzer_set_state (Some f) st size') (\<lambda>(p, e, f').
                  Inr (if p = NULL then (None, e) else (f', e)))))"

definition iofuzzer_set_variates :: "iofuzzer option \<Rightarrow> ulong array option \<Rightarrow> fuzzer_ptr reply" where
  "iofuzzer_set_variates fuzzer variates' =
     (case fuzzer of
        None \<Rightarrow> (NULL, Some EINVAL, None)
      | Some f \<Rightarrow>
          (FUZZER, (if variates' = None then Some EINVAL else None),
           Some (f\<lparr>variates := array_ref variates'\<rparr>)))"

text \<open>\<^verbatim>\<open>iofuzzer_unref\<close> returns nothing and sets no \<^verbatim>\<open>errno\<close>; the result is the fuzzer
  after the call, \<open>None\<close> when there is none or when the last reference is gone and
  \<^verbatim>\<open>iofuzzer_free\<close> has released it.\<close>

definition iofuzzer_unref :: "iofuzzer option \<Rightarrow> iofuzzer option" where
  "iofuzzer_unref fuzzer =
     (case fuzzer of
        None \<Rightarrow> None
      | Some f \<Rightarrow>
          (let n = (fz_refcount f + 2 ^ 32 - 1) mod 2 ^ 32
           in if 0 < n then Some (f\<lparr>fz_refcount := n\<rparr>)
              else snd (snd (iofuzzer_free (Some (f\<lparr>fz_refcount := n\<rparr>))))))"

section \<open>The worker (thread_start)\<close>














section \<open>Notions for the statements\<close>

text \<open>The generator after one call of \<^verbatim>\<open>erand48\<close> or \<^verbatim>\<open>jrand48\<close>, and the value that
  \<^verbatim>\<open>random_ulong_with_range\<close> computes from a generator.\<close>

definition rng_next :: "random \<Rightarrow> random" where
  "rng_next r = r\<lparr>rnd_state := snd (erand48 (rnd_state r))\<rparr>"

definition rng_val :: "random \<Rightarrow> ulong \<Rightarrow> ulong \<Rightarrow> ulong" where
  "rng_val r b e = of_nat (fst (erand48 (rnd_state r)) * unat (e - b + 1) div 2 ^ 48 + unat b)"

text \<open>
  A port list that \<^verbatim>\<open>_iofuzzer_randomize\<close> can read: every element is in allocated and
  written memory, and so is \<^verbatim>\<open>ports[0]\<close>, which is what the generator reads from an empty
  list.  \<open>ports_in_range\<close>: the elements it can read are at most \<^verbatim>\<open>MAXPORT\<close>.
\<close>

definition ports_readable :: "ulong array \<Rightarrow> bool" where
  "ports_readable p =
     (arr_length p < 2 ^ 32 \<and> max 1 (arr_length p) \<le> length (arr_data p)
      \<and> list_all (\<lambda>x. x \<noteq> None) (take (max 1 (arr_length p)) (arr_data p)))"

definition ports_in_range :: "ulong array \<Rightarrow> bool" where
  "ports_in_range p =
     list_all (\<lambda>x. case x of None \<Rightarrow> False | Some v \<Rightarrow> v \<le> MAXPORT) (take (max 1 (arr_length p)) (arr_data p))"

text \<open>
  The shape that \<^verbatim>\<open>iofuzzer_new\<close> gives a fuzzer and that the variate generator relies
  on: a generator with its \<^verbatim>\<open>MAXSIZE\<close> bytes of state, two distinct scratch buffers of
  \<^verbatim>\<open>MAXSIZE\<close> bytes, a variate array with \<^verbatim>\<open>NUM_VARIATES\<close> written elements whose slots 5
  and 6 hold the addresses of the buffers, and a port list that is null or readable.
\<close>

definition fuzzer_wf :: "iofuzzer \<Rightarrow> bool" where
  "fuzzer_wf f =
     ((case fz_random f of None \<Rightarrow> False | Some r \<Rightarrow> length (rnd_state r) = MAXSIZE)
      \<and> length (state f) = 8
      \<and> variate5 f \<noteq> 0 \<and> variate6 f \<noteq> 0 \<and> variate5 f \<noteq> variate6 f
      \<and> length (buffer5 f) = MAXSIZE \<and> length (buffer6 f) = MAXSIZE
      \<and> (case variates f of
            None \<Rightarrow> False
          | Some va \<Rightarrow>
              NUM_VARIATES \<le> length (arr_data va)
              \<and> arr_data va ! 0 \<noteq> None \<and> arr_data va ! 1 \<noteq> None \<and> arr_data va ! 2 \<noteq> None
              \<and> arr_data va ! 3 \<noteq> None \<and> arr_data va ! 4 \<noteq> None
              \<and> arr_data va ! 5 = Some (variate5 f) \<and> arr_data va ! 6 = Some (variate6 f))
      \<and> (case ports f of None \<Rightarrow> True | Some p \<Rightarrow> ports_readable p))"

text \<open>The property of claim C2: seven variates, slot 0 in \<open>[0, 11]\<close>, slot 3 in \<open>[1, 64]\<close>
  and slot 4 in \<open>[0, 0xffff]\<close>.\<close>

definition fuzzer_invariant :: "iofuzzer \<Rightarrow> bool" where
  "fuzzer_invariant f =
     (case variates f of
        None \<Rightarrow> False
      | Some va \<Rightarrow>
          arr_length va = 7 \<and> 7 \<le> length (arr_data va)
          \<and> (case (arr_data va ! 0, arr_data va ! 3, arr_data va ! 4) of
                (Some v0, Some v3, Some v4) \<Rightarrow> v0 \<le> 11 \<and> 1 \<le> v3 \<and> v3 \<le> 64 \<and> v4 \<le> 0xffff
              | _ \<Rightarrow> False))"

text \<open>A fuzzer in the shape above that has the property of claim C2 and a port list in
  range.\<close>

definition fuzzer_good :: "iofuzzer \<Rightarrow> bool" where
  "fuzzer_good f =
     (fuzzer_wf f \<and> fuzzer_invariant f
      \<and> (case ports f of None \<Rightarrow> True | Some p \<Rightarrow> ports_in_range p))"

text \<open>The current variate tuple of a fuzzer: the values of its seven slots.  The
  instruction that \<^verbatim>\<open>_iofuzzer_iterate\<close> dispatches for a tuple is selected by slot 0 and gets
  the other six slots as operands.\<close>

definition variate_tuple :: "iofuzzer \<Rightarrow> ulong list" where
  "variate_tuple f =
     (case variates f of
        None \<Rightarrow> []
      | Some va \<Rightarrow> map (\<lambda>x. case x of None \<Rightarrow> 0 | Some v \<Rightarrow> v) (take NUM_VARIATES (arr_data va)))"

definition dispatched :: "ulong list \<Rightarrow> func \<times> ulong list" where
  "dispatched tuple = (FUNCS ! unat (tuple ! 0), drop 1 tuple)"

text \<open>The fuzzer that \<^verbatim>\<open>iofuzzer_new\<close> has built when it calls
  \<^verbatim>\<open>_iofuzzer_randomize\<close>: the variate array has been grown from 4 to 32 bytes, 8 elements.\<close>

definition blank_fuzzer :: "ulong \<Rightarrow> ulong \<Rightarrow> iofuzzer" where
  "blank_fuzzer a5 a6 =
     \<lparr>fz_refcount = 0, ports = None, fz_random = Some random_new, state = replicate 8 0,
      variate5 = a5, variate6 = a6,
      variates = Some \<lparr>arr_data = [Some 0, Some 0, Some 0, Some 0, Some 0, Some a5, Some a6, Some 0],
                       arr_refcount = 1, element_size = 4, growth_factor = 2, arr_length = 7,
                       arr_size = 32\<rparr>,
      buffer5 = replicate MAXSIZE 0, buffer6 = replicate MAXSIZE 0, io_trace = []\<rparr>"

text \<open>
  The calls of public functions that change a fuzzer, and the fuzzer that a call leaves:
  \<open>Inr None\<close> when \<^verbatim>\<open>iofuzzer_unref\<close> has freed it.
\<close>

datatype call =
    Iterate "nat \<Rightarrow> byte"
  | IterateWithState "nat \<Rightarrow> byte" "byte list option" nat
  | SetPorts "ulong array option"
  | SetRandom "random option"
  | SetState "byte list option" nat
  | SetVariates "ulong array option"
  | Ref
  | Unref

fun perform :: "call \<Rightarrow> iofuzzer \<Rightarrow> fault + iofuzzer option" where
  "perform (Iterate dev) f = and_then (iofuzzer_iterate dev (Some f)) (\<lambda>(_, _, f'). Inr f')"
| "perform (IterateWithState dev st n) f =
     and_then (iofuzzer_iterate_with_state dev (Some f) st n) (\<lambda>(_, _, f'). Inr f')"
| "perform (SetPorts p) f = and_then (iofuzzer_set_ports (Some f) p) (\<lambda>(_, _, f'). Inr f')"
| "perform (SetRandom r) f = and_then (iofuzzer_set_random (Some f) r) (\<lambda>(_, _, f'). Inr f')"
| "perform (SetState st n) f = and_then (iofuzzer_set_state (Some f) st n) (\<lambda>(_, _, f'). Inr f')"
| "perform (SetVariates va) f = Inr (snd (snd (iofuzzer_set_variates (Some f) va)))"
| "perform Ref f = Inr (snd (snd (iofuzzer_ref (Some f))))"
| "perform Unref f = Inr (iofuzzer_unref (Some f))"

text \<open>
  The states of a fuzzer that can be reached: after construction, where \<^verbatim>\<open>calloc\<close> has
  returned two distinct addresses that are not null, and after every call that \<open>ok\<close>
  admits.
\<close>

inductive reachable :: "(call \<Rightarrow> bool) \<Rightarrow> iofuzzer \<Rightarrow> bool" for ok :: "call \<Rightarrow> bool" where
  new: "iofuzzer_new a5 a6 = Some (Inr (Some f)) \<Longrightarrow> a5 \<noteq> 0 \<Longrightarrow> a6 \<noteq> 0 \<Longrightarrow> a5 \<noteq> a6
        \<Longrightarrow> reachable ok f"
| new_with_state: "iofuzzer_new_with_state a5 a6 st n = Some (Inr (Some f, e)) \<Longrightarrow> a5 \<noteq> 0 \<Longrightarrow> a6 \<noteq> 0
        \<Longrightarrow> a5 \<noteq> a6 \<Longrightarrow> reachable ok f"
| call: "reachable ok f \<Longrightarrow> ok c \<Longrightarrow> perform c f = Inr (Some f') \<Longrightarrow> reachable ok f'"

text \<open>
  The calls in which the caller hands over nothing that the variate generator cannot
  work with: every call but \<^verbatim>\<open>iofuzzer_set_variates\<close>, with a port list that is null or
  readable and in range, and with a generator that is not null and has its \<^verbatim>\<open>MAXSIZE\<close>
  bytes of state.
\<close>

fun admissible :: "call \<Rightarrow> bool" where
  "admissible (SetVariates va) = False"
| "admissible (SetPorts p) = (case p of None \<Rightarrow> True | Some a \<Rightarrow> ports_readable a \<and> ports_in_range a)"
| "admissible (SetRandom r) = (case r of None \<Rightarrow> False | Some g \<Rightarrow> length (rnd_state g) = MAXSIZE)"
| "admissible c = True"

section \<open>Evaluation on numerals\<close>

lemma and_then_Inr [simp]: "and_then (Inr x) k = k x"
  by (simp add: and_then_def)

lemma and_then_Inl [simp]: "and_then (Inl e) k = Inl e"
  by (simp add: and_then_def)

lemma le_bytes_numeral:
  "le_bytes (numeral k) v = of_nat (v mod 256) # le_bytes (pred_numeral k) (v div 256)"
  by (simp only: numeral_eq_Suc [of k] le_bytes.simps)

lemma replicate_numeral_Cons:
  "replicate (numeral k) x = x # replicate (pred_numeral k) x"
  by (simp only: numeral_eq_Suc [of k] replicate.simps)

lemma bit_length_le: "x < 2 ^ k \<Longrightarrow> bit_length x \<le> k"
proof (induction k arbitrary: x)
  case 0
  then show ?case by (subst bit_length.simps) simp
next
  case (Suc k)
  have "x div 2 < 2 ^ k"
    using Suc.prems by simp
  then have "bit_length (x div 2) \<le> k"
    by (rule Suc.IH)
  then show ?case
    by (subst bit_length.simps) simp
qed

text \<open>A number of at most \<open>2^24\<close> is a \<^verbatim>\<open>float\<close>.\<close>

lemma float_round_exact: "x \<le> 2 ^ 24 \<Longrightarrow> float_round x = x"
proof -
  assume x: "x \<le> 2 ^ 24"
  define e where "e = bit_length x - 24"
  have "2 ^ e dvd x"
  proof (cases "x < 2 ^ 24")
    case True
    then have "bit_length x \<le> 24"
      by (rule bit_length_le)
    then show ?thesis
      by (simp add: e_def)
  next
    case False
    then have x24: "x = 2 ^ 24"
      using x by simp
    then have "x < 2 ^ 25"
      by simp
    then have "bit_length x \<le> 25"
      by (rule bit_length_le)
    then have "e \<le> 24"
      by (simp add: e_def)
    then show ?thesis
      unfolding x24 by (rule le_imp_power_dvd)
  qed
  then have "x mod 2 ^ e = 0" "x div 2 ^ e * 2 ^ e = x"
    by simp_all
  then show ?thesis
    by (simp add: float_round_def Let_def e_def [symmetric])
qed

lemma unat_minus_1_ulong: "unat (- 1 :: ulong) = 4294967295"
  by (simp add: unsigned_minus_1_eq_mask mask_eq_exp_minus_1)

lemma length_charset: "length charset = 97"
  by (simp add: charset_def)

lemma charset_nth_0: "charset ! 0 = 0x20"
  by (simp add: charset_def)

lemma charset_nth_96: "charset ! 96 = 0"
  by (simp add: charset_def nth_append)

lemmas random_string_eval =
  random_string_def random_string_loop.simps random_number_with_range_def
  random_ulong_with_range_def random_double_def erand48_def drand48_iterate_def Let_def
  le_bytes_numeral replicate_numeral_Cons random_new_def MAXSIZE_def
  length_charset charset_nth_0 charset_nth_96 unat_minus_1_ulong

section \<open>The range of a draw\<close>

lemma drand48_iterate_less: "drand48_iterate x < 2 ^ 48"
  by (simp add: drand48_iterate_def)

lemma erand48_fst_less: "fst (erand48 s) < 2 ^ 48"
  using drand48_iterate_less [of "le_val (take 6 s)"] by (simp add: erand48_def Let_def)

lemma random_double_Some:
  "random_double (Some r) =
     Inr (fst (erand48 (rnd_state r)), r\<lparr>rnd_state := snd (erand48 (rnd_state r))\<rparr>)"
  by (simp add: random_double_def split: prod.splits)

lemma scaled_draw_le:
  fixes x n d :: nat
  assumes "x < 2 ^ 48" "n \<le> d + 1"
  shows "x * n div 2 ^ 48 \<le> d"
proof (cases "n = 0")
  case True
  then show ?thesis by simp
next
  case False
  have "x * n < 2 ^ 48 * n"
    using assms(1) False by simp
  then have "x * n div 2 ^ 48 < n"
    by (simp add: less_mult_imp_div_less mult.commute)
  then show ?thesis using assms(2) by simp
qed

lemma unat_range_factor:
  fixes b e :: ulong
  assumes "b \<le> e"
  shows "unat (e - b + 1) \<le> unat e - unat b + 1"
proof -
  have "unat (e - b) = unat e - unat b"
    using assms by (simp add: unat_sub)
  moreover have "unat (e - b + 1) \<le> unat (e - b) + 1"
    by (simp add: unat_word_ariths)
  ultimately show ?thesis by simp
qed

lemma length_le_bytes [simp]: "length (le_bytes n v) = n"
  by (induction n arbitrary: v) simp_all

lemma length_erand48: "6 \<le> length s \<Longrightarrow> length (snd (erand48 s)) = length s"
  by (simp add: erand48_def Let_def)

lemma jrand48_snd: "snd (jrand48 s) = snd (erand48 s)"
  by (simp add: jrand48_def erand48_def Let_def)

lemma length_rng_next: "6 \<le> length (rnd_state r) \<Longrightarrow> length (rnd_state (rng_next r)) = length (rnd_state r)"
  by (simp add: rng_next_def length_erand48)

lemma length_rng_next_funpow:
  "6 \<le> length (rnd_state r) \<Longrightarrow> length (rnd_state ((rng_next ^^ n) r)) = length (rnd_state r)"
  by (induction n) (simp_all add: length_rng_next)

text \<open>A draw from \<open>[b, e]\<close> with \<open>b \<le> e\<close> returns, and returns a value of the range; it
  leaves the generator one step further.\<close>

lemma random_ulong_with_range_eq:
  assumes "b \<le> e"
  shows "random_ulong_with_range (Some r) b e = Inr (rng_val r b e, rng_next r)
         \<and> b \<le> rng_val r b e \<and> rng_val r b e \<le> e"
proof -
  define x where "x = fst (erand48 (rnd_state r))"
  define v where "v = x * unat (e - b + 1) div 2 ^ 48 + unat b"
  have "x * unat (e - b + 1) div 2 ^ 48 \<le> unat e - unat b"
    using scaled_draw_le [OF _ unat_range_factor [OF assms]] erand48_fst_less
    by (simp add: x_def)
  moreover have be: "unat b \<le> unat e"
    using assms by (simp add: word_le_nat_alt)
  ultimately have v: "unat b \<le> v" "v \<le> unat e"
    by (simp_all add: v_def)
  have "unat e < 2 ^ 32"
    using unsigned_less [of e] by simp
  with v have v32: "v < 2 ^ 32" by simp
  then have uv: "unat (of_nat v :: ulong) = v"
    by (simp add: unat_of_nat)
  have val: "rng_val r b e = of_nat v"
    by (simp add: rng_val_def v_def x_def)
  have "random_ulong_with_range (Some r) b e = Inr (of_nat v, rng_next r)"
    using v32 by (simp add: random_ulong_with_range_def random_double_Some Let_def x_def v_def rng_next_def)
  moreover have "b \<le> (of_nat v :: ulong)" "(of_nat v :: ulong) \<le> e"
    using v uv by (simp_all add: word_le_nat_alt)
  ultimately show ?thesis by (simp add: val)
qed

section \<open>random_string\<close>

lemma random_string_loop_runs:
  assumes "i \<le> bound" "bound \<le> length s" "bound < 2 ^ 31"
  shows "\<exists>s'. random_string_loop r s i bound = Inr ((rng_next ^^ (bound - i)) r, s', bound)
           \<and> length s' = length s
           \<and> (\<forall>j. j < i \<or> bound \<le> j \<longrightarrow> s' ! j = s ! j)
           \<and> (\<forall>j. i \<le> j \<and> j < bound \<longrightarrow> s' ! j \<in> set charset)"
  using assms
proof (induction "bound - i" arbitrary: r s i)
  case 0
  then show ?case by (auto simp add: random_string_loop.simps)
next
  case (Suc d)
  then have lt: "i < bound" by simp
  define k where "k = rng_val r 0 96"
  have draw: "random_ulong_with_range (Some r) 0 96 = Inr (k, rng_next r)" and k: "k \<le> 96"
    using random_ulong_with_range_eq [of 0 96 r] by (simp_all add: k_def)
  define c where "c = charset ! unat k"
  have "unat k \<le> 96"
    using k by (simp add: word_le_nat_alt)
  then have c: "c \<in> set charset"
    by (simp add: c_def length_charset)
  have step: "random_string_loop r s i bound = random_string_loop (rng_next r) (s[i := c]) (i + 1) bound"
    using lt Suc.prems draw
    by (subst random_string_loop.simps) (simp add: random_number_with_range_def length_charset c_def)
  have d: "d = bound - (i + 1)" using Suc.hyps(2) by simp
  from Suc.hyps(1) [OF d, of "s[i := c]" "rng_next r"] lt Suc.prems
  obtain s' where res: "random_string_loop (rng_next r) (s[i := c]) (i + 1) bound
        = Inr ((rng_next ^^ d) (rng_next r), s', bound)"
      and len: "length s' = length s"
      and same: "\<forall>j. j < i + 1 \<or> bound \<le> j \<longrightarrow> s' ! j = (s[i := c]) ! j"
      and chars: "\<forall>j. i + 1 \<le> j \<and> j < bound \<longrightarrow> s' ! j \<in> set charset"
    using d by auto
  have "(rng_next ^^ d) (rng_next r) = (rng_next ^^ Suc d) r"
    by (simp add: funpow_swap1)
  then have "(rng_next ^^ d) (rng_next r) = (rng_next ^^ (bound - i)) r"
    by (simp only: Suc.hyps(2))
  moreover have "s' ! i = c"
    using same lt Suc.prems by simp
  with chars c have "\<forall>j. i \<le> j \<and> j < bound \<longrightarrow> s' ! j \<in> set charset"
    by (metis Suc_eq_plus1 Suc_leI le_neq_implies_less)
  moreover have "\<forall>j. j < i \<or> bound \<le> j \<longrightarrow> s' ! j = s ! j"
    using same lt by auto
  ultimately show ?case
    using step res len by simp
qed

text \<open>
  Claim C3, as the code has it.  For a length \<open>n\<close> of at least 2 and a buffer of at least
  \<open>n - 1\<close> bytes, \<^verbatim>\<open>random_string(random, buf, n)\<close> returns \<^verbatim>\<open>buf\<close>, having written exactly the
  bytes \<open>0 .. n - 2\<close>: \<open>n - 2\<close> entries of \<^verbatim>\<open>charset\<close> in \<open>buf[0 .. n - 3]\<close> and a NUL in
  \<open>buf[n - 2]\<close>.  The byte \<open>buf[n - 1]\<close> and all later ones keep their value.  For \<open>n = 2\<close>
  the only write is the NUL in \<open>buf[0]\<close>, and the generator is not used.
\<close>

theorem random_string_layout:
  assumes "2 \<le> unat n" "unat n \<le> length buf + 1" "unat n \<le> 2 ^ 31"
  shows "\<exists>buf' r'. random_string (Some r) (Some buf) n = Inr (Some (buf', r'))
           \<and> length buf' = length buf
           \<and> (\<forall>j. j < unat n - 2 \<longrightarrow> buf' ! j \<in> set charset)
           \<and> buf' ! (unat n - 2) = 0
           \<and> (\<forall>j. unat n - 2 < j \<and> j < length buf \<longrightarrow> buf' ! j = buf ! j)
           \<and> (n = 2 \<longrightarrow> buf' = buf[0 := 0] \<and> r' = r)"
proof -
  define bound where "bound = unat (n - 2)"
  have "(2 :: ulong) \<le> n"
    using assms(1) by (simp add: word_le_nat_alt)
  then have bound: "bound = unat n - 2"
    by (simp add: bound_def unat_sub)
  with assms have b: "bound < length buf" "bound < 2 ^ 31" by simp_all
  from random_string_loop_runs [of 0 bound buf r] b
  obtain r' s' where loop: "random_string_loop r buf 0 bound = Inr (r', s', bound)"
      and len: "length s' = length buf"
      and same: "\<forall>j. bound \<le> j \<longrightarrow> s' ! j = buf ! j"
      and chars: "\<forall>j. j < bound \<longrightarrow> s' ! j \<in> set charset"
    by auto
  have res: "random_string (Some r) (Some buf) n = Inr (Some (s'[bound := 0], r'))"
    using loop len b by (simp add: random_string_def bound_def)
  have two: "n = 2 \<longrightarrow> s'[bound := 0] = buf[0 := 0] \<and> r' = r"
    using loop by (auto simp add: bound_def random_string_loop.simps)
  show ?thesis
    using res len same chars two b(1) by (simp add: bound)
qed

theorem random_string_layout_witness:
  "\<exists>buf' r'. random_string (Some random_new) (Some [0x58, 0x58, 0x58]) 3 = Inr (Some (buf', r'))
     \<and> length buf' = 3 \<and> buf' ! 0 \<in> set charset \<and> buf' ! 1 = 0 \<and> buf' ! 2 = 0x58"
proof -
  from random_string_layout [of 3 "[0x58, 0x58, 0x58]" random_new]
  obtain buf' r' where res: "random_string (Some random_new) (Some [0x58, 0x58, 0x58]) 3 = Inr (Some (buf', r'))"
      and "length buf' = 3" "buf' ! 0 \<in> set charset" "buf' ! 1 = 0"
      and rest: "\<forall>j. 1 < j \<and> j < 3 \<longrightarrow> buf' ! j = [0x58, 0x58, 0x58] ! j"
    by auto
  moreover have "buf' ! 2 = 0x58"
    using rest by simp
  ultimately show ?thesis by blast
qed

text \<open>
  Claim C3 as stated fails twice.  With length 1 and a buffer of one byte the loop bound
  \<^verbatim>\<open>length - 2\<close> wraps to \<open>2^32 - 1\<close> and the second iteration writes past the buffer.
  With length 3 the function writes one character and the NUL at index 1, not two
  characters and a NUL.
\<close>

theorem random_string_counterexample:
  "random_string (Some random_new) (Some [0x58]) 1 = Inl OutOfBounds
   \<and> random_string (Some random_new) (Some [0x58, 0x58, 0x58]) 3
       = Inr (Some ([0x20, 0, 0x58], random_new\<lparr>rnd_state := 11 # replicate 255 0\<rparr>))"
  by (simp add: random_string_eval)

text \<open>
  Claim C4 at a failing input.  From the generator state \<open>0x2b28\<close> the first index drawn is
  96, the position of the terminating NUL of \<^verbatim>\<open>charset\<close>: the character written to
  \<open>buf[0]\<close> is NUL.  The table has 97 entries, and the percent sign fills two of them.
\<close>

theorem random_string_draws_nul:
  "random_string (Some (random_new\<lparr>rnd_state := [0x28, 0x2b] @ replicate 254 0\<rparr>))
       (Some [0x58, 0x58, 0x58]) 3
     = Inr (Some ([0, 0, 0x58],
         random_new\<lparr>rnd_state := [0x13, 0x50, 0xb8, 0x9f, 0x5c, 0xfd] @ replicate 250 0\<rparr>))
   \<and> length charset = 97 \<and> count_list charset 0x25 = 2 \<and> count_list charset 0 = 1"
  by (simp add: random_string_eval) (simp add: charset_def)

section \<open>Steps of the variate generator\<close>

lemma random_number_eq:
  "random_number (Some r) = Inr (of_nat (fst (jrand48 (rnd_state r))), rng_next r)"
  by (simp add: random_number_def random_ulong_def rng_next_def jrand48_snd [symmetric] split: prod.splits)

lemma random_fermat_number_returns: "\<exists>v. random_fermat_number (Some r) = Inr (v, rng_next r)"
proof -
  have k: "random_ulong_with_range (Some r) 1 31 = Inr (rng_val r 1 31, rng_next r)" "rng_val r 1 31 \<le> 31"
    using random_ulong_with_range_eq [of 1 31 r] by simp_all
  then have "unat (rng_val r 1 31) \<le> 31"
    by (simp add: word_le_nat_alt)
  then have "(2::nat) ^ unat (rng_val r 1 31) \<le> 2 ^ 31"
    by (intro power_increasing) simp_all
  then have "\<not> (2::nat) ^ 32 \<le> 2 ^ unat (rng_val r 1 31) + 1"
    by simp
  then show ?thesis
    using k(1) unfolding random_fermat_number_def random_number_with_range_def Let_def
    by simp
qed

lemma random_mersenne_number_returns: "\<exists>v. random_mersenne_number (Some r) = Inr (v, rng_next r)"
proof -
  have k: "random_ulong_with_range (Some r) 1 32 = Inr (rng_val r 1 32, rng_next r)" "rng_val r 1 32 \<le> 32"
    using random_ulong_with_range_eq [of 1 32 r] by simp_all
  then have "unat (rng_val r 1 32) \<le> 32"
    by (simp add: word_le_nat_alt)
  then have "(2::nat) ^ unat (rng_val r 1 32) \<le> 2 ^ 32"
    by (intro power_increasing) simp_all
  then have "\<not> (2::nat) ^ 32 \<le> 2 ^ unat (rng_val r 1 32) - 1"
    by simp
  then show ?thesis
    using k(1) unfolding random_mersenne_number_def random_number_with_range_def Let_def
    by simp
qed

lemma draw_range:
  assumes "fz_random f = Some r" "b \<le> e"
  shows "draw f (\<lambda>r. random_number_with_range r b e) = Inr (rng_val r b e, f\<lparr>fz_random := Some (rng_next r)\<rparr>)"
  using assms random_ulong_with_range_eq [of b e r]
  by (simp add: draw_def random_number_with_range_def)

lemma set_variate_eq:
  assumes "variates f = Some va" "i < length (arr_data va)"
  shows "set_variate f i v = Inr (f\<lparr>variates := Some (va\<lparr>arr_data := (arr_data va)[i := Some v]\<rparr>)\<rparr>)"
  using assms by (simp add: set_variate_def array_index_set_def)

lemma ulong_le_2_cases: "(k :: ulong) \<le> 2 \<Longrightarrow> k = 0 \<or> k = 1 \<or> k = 2"
proof -
  assume "k \<le> 2"
  then have "unat k \<le> 2" by (simp add: word_le_nat_alt)
  then have "unat k = 0 \<or> unat k = 1 \<or> unat k = 2" by auto
  then show ?thesis
    by (simp add: word_unat_eq_iff)
qed

lemma iofuzzer_random_number'_returns:
  assumes "fz_random f = Some r"
  shows "\<exists>v. iofuzzer_random_number' f = Inr (v, f\<lparr>fz_random := Some (rng_next (rng_next r))\<rparr>)"
proof -
  let ?f1 = "f\<lparr>fz_random := Some (rng_next r)\<rparr>"
  have d: "draw f (\<lambda>r. random_number_with_range r 0 2) = Inr (rng_val r 0 2, ?f1)"
    using assms by (intro draw_range) simp_all
  have "rng_val r 0 2 \<le> 2"
    using random_ulong_with_range_eq [of 0 2 r] by simp
  then consider "rng_val r 0 2 = 0" | "rng_val r 0 2 = 1" | "rng_val r 0 2 = 2"
    using ulong_le_2_cases by blast
  then show ?thesis
  proof cases
    case 1
    then show ?thesis
      using d by (simp add: iofuzzer_random_number'_def draw_def random_number_eq)
  next
    case 2
    obtain v where "random_fermat_number (Some (rng_next r)) = Inr (v, rng_next (rng_next r))"
      using random_fermat_number_returns by blast
    with 2 show ?thesis
      using d by (simp add: iofuzzer_random_number'_def draw_def)
  next
    case 3
    obtain v where "random_mersenne_number (Some (rng_next r)) = Inr (v, rng_next (rng_next r))"
      using random_mersenne_number_returns by blast
    with 3 show ?thesis
      using d by (simp add: iofuzzer_random_number'_def draw_def)
  qed
qed


lemma random_string_256:
  assumes "length buf = 256"
  shows "\<exists>b. random_string (Some r) (Some buf) 256 = Inr (Some (b, (rng_next ^^ 254) r)) \<and> length b = 256"
proof -
  from random_string_loop_runs [of 0 254 buf r] assms
  obtain s' where "random_string_loop r buf 0 254 = Inr ((rng_next ^^ 254) r, s', 254)" "length s' = 256"
    by auto
  then show ?thesis
    by (simp add: random_string_def)
qed

lemma randomize_string_5:
  assumes "fz_random f = Some r" "variates f = Some va" "5 < length (arr_data va)"
    and "arr_data va ! 5 = Some (variate5 f)" "variate5 f \<noteq> 0" "length (buffer5 f) = 256"
  shows "\<exists>b. randomize_string f 5 = Inr (f\<lparr>fz_random := Some ((rng_next ^^ 254) r), buffer5 := b\<rparr>, None)
           \<and> length b = 256"
proof -
  obtain b where b: "random_string (Some r) (Some (buffer5 f)) 256 = Inr (Some (b, (rng_next ^^ 254) r))"
      "length b = 256"
    using random_string_256 [OF assms(6)] by blast
  have "(arr_data va)[5 := Some (variate5 f)] = arr_data va"
    using assms(4) by (metis list_update_id)
  then have "f\<lparr>fz_random := Some ((rng_next ^^ 254) r), buffer5 := b,
        variates := Some (va\<lparr>arr_data := (arr_data va)[5 := Some (variate5 f)]\<rparr>)\<rparr>
      = f\<lparr>fz_random := Some ((rng_next ^^ 254) r), buffer5 := b\<rparr>"
    using assms(2) by simp
  then show ?thesis
    using assms b
    by (intro exI [of _ b])
      (simp add: randomize_string_def array_index_def MAXSIZE_def set_variate_def array_index_set_def)
qed

lemma randomize_string_6:
  assumes "fz_random f = Some r" "variates f = Some va" "6 < length (arr_data va)"
    and "arr_data va ! 6 = Some (variate6 f)" "variate6 f \<noteq> 0" "variate5 f \<noteq> variate6 f"
    and "length (buffer6 f) = 256"
  shows "\<exists>b. randomize_string f 6 = Inr (f\<lparr>fz_random := Some ((rng_next ^^ 254) r), buffer6 := b\<rparr>, None)
           \<and> length b = 256"
proof -
  obtain b where b: "random_string (Some r) (Some (buffer6 f)) 256 = Inr (Some (b, (rng_next ^^ 254) r))"
      "length b = 256"
    using random_string_256 [OF assms(7)] by blast
  have "(arr_data va)[6 := Some (variate6 f)] = arr_data va"
    using assms(4) by (metis list_update_id)
  then have "f\<lparr>fz_random := Some ((rng_next ^^ 254) r), buffer6 := b,
        variates := Some (va\<lparr>arr_data := (arr_data va)[6 := Some (variate6 f)]\<rparr>)\<rparr>
      = f\<lparr>fz_random := Some ((rng_next ^^ 254) r), buffer6 := b\<rparr>"
    using assms(2) by simp
  then show ?thesis
    using assms b
    by (intro exI [of _ b])
      (simp add: randomize_string_def array_index_def MAXSIZE_def set_variate_def array_index_set_def)
qed

lemma random_get_state_8:
  assumes "8 \<le> length (rnd_state r)" "length st = 8"
  shows "random_get_state (Some r) (Some st) 8 = Inr (Some (take 8 (rnd_state r)))"
  using assms by (simp add: random_get_state_def memcpy_def MINSIZE_def MAXSIZE_def)

lemma rng_next_funpow_add: "(rng_next ^^ m) ((rng_next ^^ n) r) = (rng_next ^^ (m + n)) r"
  by (simp add: funpow_add)

text \<open>The element that the generator reads from a readable port list.\<close>

lemma rng_val_full_range: "rng_val r 0 (- 1) = 0"
  by (simp add: rng_val_def)

lemma ports_readable_index:
  fixes r :: random
  assumes "ports_readable p"
  defines "k \<equiv> rng_val r 0 (of_nat (arr_length p) - 1)"
  shows "\<exists>v. array_index (Some p) (unat k) = Inr v \<and> arr_data p ! unat k = Some v
           \<and> unat k < max 1 (arr_length p)"
proof -
  have len: "arr_length p < 2 ^ 32" "max 1 (arr_length p) \<le> length (arr_data p)"
      and all: "list_all (\<lambda>x. x \<noteq> None) (take (max 1 (arr_length p)) (arr_data p))"
    using assms(1) by (simp_all add: ports_readable_def)
  have k: "unat k < max 1 (arr_length p)"
  proof (cases "arr_length p = 0")
    case True
    then have "k = 0" by (simp add: k_def rng_val_full_range)
    then show ?thesis by simp
  next
    case False
    have "unat (of_nat (arr_length p) :: ulong) = arr_length p"
      using len(1) by (simp add: unat_of_nat)
    moreover have "(1 :: ulong) \<le> of_nat (arr_length p)"
      using False calculation by (simp add: word_le_nat_alt)
    ultimately have "unat (of_nat (arr_length p) - (1 :: ulong)) = arr_length p - 1"
      by (simp add: unat_sub)
    moreover have "k \<le> of_nat (arr_length p) - 1"
      using random_ulong_with_range_eq [of 0 "of_nat (arr_length p) - 1" r] by (simp add: k_def)
    ultimately have "unat k \<le> arr_length p - 1"
      by (simp add: word_le_nat_alt)
    then show ?thesis using False by simp
  qed
  then have "unat k < length (arr_data p)"
    using len(2) by linarith
  moreover have "arr_data p ! unat k \<noteq> None"
    using all k len(2) by (auto simp add: list_all_length)
  ultimately show ?thesis
    using k by (auto simp add: array_index_def)
qed


lemma iofuzzer_randomize'_result:
  assumes wf: "fuzzer_wf f" and r: "fz_random f = Some r" and va: "variates f = Some va"
  shows "\<exists>v1 v2 v4 b5 b6.
     iofuzzer_randomize' f
       = Inr (f\<lparr>state := take 8 (rnd_state r),
                fz_random := Some ((rng_next ^^ 515) r),
                variates := Some (va\<lparr>arr_data := (arr_data va)
                   [0 := Some (rng_val r 0 11), 1 := Some v1, 2 := Some v2,
                    3 := Some (rng_val ((rng_next ^^ 5) r) 1 64), 4 := Some v4]\<rparr>),
                buffer5 := b5, buffer6 := b6\<rparr>, None)
     \<and> length b5 = 256 \<and> length b6 = 256
     \<and> (case ports f of
           None \<Rightarrow> v4 \<le> 0xffff
         | Some p \<Rightarrow> \<exists>k < max 1 (arr_length p). arr_data p ! k = Some v4)"
proof -
  define R where "R n = (rng_next ^^ n) r" for n
  have R1: "rng_next r = R (Suc 0)" and R3: "rng_next (rng_next (R (Suc 0))) = R 3"
      and R5: "rng_next (rng_next (R 3)) = R 5" and R6: "rng_next (R 5) = R 6"
      and R7: "rng_next (R 6) = R 7"
    by (simp_all add: R_def eval_nat_numeral)
  have R261: "(rng_next ^^ 254) (R 7) = R 261" and R515: "(rng_next ^^ 254) (R 261) = R 515"
    by (simp_all add: R_def rng_next_funpow_add)
  have basics: "length (rnd_state r) = 256" "length (state f) = 8" "7 \<le> length (arr_data va)"
      "arr_data va ! 5 = Some (variate5 f)" "arr_data va ! 6 = Some (variate6 f)"
      "variate5 f \<noteq> 0" "variate6 f \<noteq> 0" "variate5 f \<noteq> variate6 f"
      "length (buffer5 f) = 256" "length (buffer6 f) = 256"
    using wf r va by (simp_all add: fuzzer_wf_def MAXSIZE_def NUM_VARIATES_def)
  let ?d = "arr_data va"
  have E0: "random_get_state (fz_random f) (Some (state f)) 8 = Inr (Some (take 8 (rnd_state r)))"
    using basics r by (simp add: random_get_state_8)
  define g0 where "g0 = f\<lparr>state := take 8 (rnd_state r)\<rparr>"
  define v0 where "v0 = rng_val r 0 11"
  define g1 where "g1 = g0\<lparr>fz_random := Some (R (Suc 0))\<rparr>"
  have E1: "draw g0 (\<lambda>r. random_number_with_range r 0 (of_nat (NUM_FUNCS - 1))) = Inr (v0, g1)"
    using draw_range [of g0 r 0 11] r
    by (simp add: g0_def g1_def v0_def NUM_FUNCS_def FUNCS_def R1)
  define d0 where "d0 = ?d[0 := Some v0]"
  define g2 where "g2 = g1\<lparr>variates := Some (va\<lparr>arr_data := d0\<rparr>)\<rparr>"
  have ne: "arr_data va \<noteq> []"
    using basics(3) by auto
  have E2: "set_variate g1 0 v0 = Inr g2"
    using set_variate_eq [of g1 va 0 v0] va ne
    by (simp add: g0_def g1_def g2_def d0_def)
  obtain v1 where E3': "iofuzzer_random_number' g2 = Inr (v1, g2\<lparr>fz_random := Some (rng_next (rng_next (R (Suc 0))))\<rparr>)"
    using iofuzzer_random_number'_returns [of g2 "R (Suc 0)"] by (auto simp add: g2_def g1_def)
  define g3 where "g3 = g2\<lparr>fz_random := Some (R 3)\<rparr>"
  have E3: "iofuzzer_random_number' g2 = Inr (v1, g3)"
    using E3' by (simp add: g3_def R3)
  define d1 where "d1 = d0[1 := Some v1]"
  define g4 where "g4 = g3\<lparr>variates := Some (va\<lparr>arr_data := d1\<rparr>)\<rparr>"
  have E4: "set_variate g3 1 v1 = Inr g4"
    using set_variate_eq [of g3 "va\<lparr>arr_data := d0\<rparr>" 1 v1] basics(3)
    by (simp add: g3_def g2_def g4_def d1_def d0_def)
  obtain v2 where E5': "iofuzzer_random_number' g4 = Inr (v2, g4\<lparr>fz_random := Some (rng_next (rng_next (R 3)))\<rparr>)"
    using iofuzzer_random_number'_returns [of g4 "R 3"] by (auto simp add: g4_def g3_def)
  define g5 where "g5 = g4\<lparr>fz_random := Some (R 5)\<rparr>"
  have E5: "iofuzzer_random_number' g4 = Inr (v2, g5)"
    using E5' by (simp add: g5_def R5)
  define d2 where "d2 = d1[2 := Some v2]"
  define g6 where "g6 = g5\<lparr>variates := Some (va\<lparr>arr_data := d2\<rparr>)\<rparr>"
  have E6: "set_variate g5 2 v2 = Inr g6"
    using set_variate_eq [of g5 "va\<lparr>arr_data := d1\<rparr>" 2 v2] basics(3)
    by (simp add: g5_def g4_def g6_def d2_def d1_def d0_def)
  define v3 where "v3 = rng_val (R 5) 1 64"
  define g7 where "g7 = g6\<lparr>fz_random := Some (R 6)\<rparr>"
  have E7: "draw g6 (\<lambda>r. random_number_with_range r 1 (of_nat (MAXSIZE div 4))) = Inr (v3, g7)"
    using draw_range [of g6 "R 5" 1 64]
    by (simp add: g6_def g5_def g7_def v3_def MAXSIZE_def R6)
  define d3 where "d3 = d2[3 := Some v3]"
  define g8 where "g8 = g7\<lparr>variates := Some (va\<lparr>arr_data := d3\<rparr>)\<rparr>"
  have E8: "set_variate g7 3 v3 = Inr g8"
    using set_variate_eq [of g7 "va\<lparr>arr_data := d2\<rparr>" 3 v3] basics(3)
    by (simp add: g7_def g6_def g8_def d3_def d2_def d1_def d0_def)
  have pg8: "ports g8 = ports f" "fz_random g8 = Some (R 6)"
    by (simp_all add: g8_def g7_def g6_def g5_def g4_def g3_def g2_def g1_def g0_def)
  define g9 where "g9 = g8\<lparr>fz_random := Some (R 7)\<rparr>"
  have E9: "\<exists>v4. (if ports g8 \<noteq> None then
          and_then (draw g8 (\<lambda>r. random_number_with_range r 0 (of_nat (array_get_length (ports g8)) - 1))) (\<lambda>(k, f).
          and_then (array_index (ports f) (unat k)) (\<lambda>v. Inr (v, f)))
        else draw g8 (\<lambda>r. random_number_with_range r 0 MAXPORT)) = Inr (v4, g9)
      \<and> (case ports f of
           None \<Rightarrow> v4 \<le> 0xffff
         | Some p \<Rightarrow> \<exists>k < max 1 (arr_length p). arr_data p ! k = Some v4)"
  proof (cases "ports f")
    case None
    have "rng_val (R 6) 0 0xffff \<le> 0xffff"
      using random_ulong_with_range_eq [of 0 "0xffff" "R 6"] by simp
    then show ?thesis
      using None pg8 draw_range [of g8 "R 6" 0 "0xffff"]
      by (simp add: MAXPORT_def g9_def R7)
  next
    case (Some p)
    then have "ports_readable p"
      using wf by (simp add: fuzzer_wf_def)
    from ports_readable_index [OF this, of "R 6"]
    obtain v where v: "array_index (Some p) (unat (rng_val (R 6) 0 (of_nat (arr_length p) - 1))) = Inr v"
        "arr_data p ! unat (rng_val (R 6) 0 (of_nat (arr_length p) - 1)) = Some v"
        "unat (rng_val (R 6) 0 (of_nat (arr_length p) - 1)) < max 1 (arr_length p)"
      by blast
    have "draw g8 (\<lambda>r. random_number_with_range r 0 (of_nat (arr_length p) - 1))
        = Inr (rng_val (R 6) 0 (of_nat (arr_length p) - 1), g9)"
      using draw_range [of g8 "R 6" 0 "of_nat (arr_length p) - 1"] pg8
      by (simp add: g9_def R7)
    then show ?thesis
      using Some pg8 v by (auto simp add: array_get_length_def g9_def)
  qed
  then obtain v4 where E9: "(if ports g8 \<noteq> None then
          and_then (draw g8 (\<lambda>r. random_number_with_range r 0 (of_nat (array_get_length (ports g8)) - 1))) (\<lambda>(k, f).
          and_then (array_index (ports f) (unat k)) (\<lambda>v. Inr (v, f)))
        else draw g8 (\<lambda>r. random_number_with_range r 0 MAXPORT)) = Inr (v4, g9)"
      and v4: "case ports f of
           None \<Rightarrow> v4 \<le> 0xffff
         | Some p \<Rightarrow> \<exists>k < max 1 (arr_length p). arr_data p ! k = Some v4"
    by blast
  define d4 where "d4 = d3[4 := Some v4]"
  define g10 where "g10 = g9\<lparr>variates := Some (va\<lparr>arr_data := d4\<rparr>)\<rparr>"
  have E10: "set_variate g9 4 v4 = Inr g10"
    using set_variate_eq [of g9 "va\<lparr>arr_data := d3\<rparr>" 4 v4] basics(3)
    by (simp add: g9_def g8_def g10_def d4_def d3_def d2_def d1_def d0_def)
  have g10: "fz_random g10 = Some (R 7)" "variates g10 = Some (va\<lparr>arr_data := d4\<rparr>)"
      "variate5 g10 = variate5 f" "variate6 g10 = variate6 f"
      "buffer5 g10 = buffer5 f" "buffer6 g10 = buffer6 f"
    by (simp_all add: g10_def g9_def g8_def g7_def g6_def g5_def g4_def g3_def g2_def g1_def g0_def)
  have d4: "length d4 = length ?d" "d4 ! 5 = Some (variate5 f)" "d4 ! 6 = Some (variate6 f)"
    using basics by (simp_all add: d4_def d3_def d2_def d1_def d0_def)
  obtain b5 where E11': "randomize_string g10 5
        = Inr (g10\<lparr>fz_random := Some ((rng_next ^^ 254) (R 7)), buffer5 := b5\<rparr>, None)"
      and b5: "length b5 = 256"
    using randomize_string_5 [of g10 "R 7" "va\<lparr>arr_data := d4\<rparr>"] g10 d4 basics by auto
  define g11 where "g11 = g10\<lparr>fz_random := Some (R 261), buffer5 := b5\<rparr>"
  have E11: "randomize_string g10 5 = Inr (g11, None)"
    using E11' by (simp add: g11_def R261)
  obtain b6 where E12': "randomize_string g11 6
        = Inr (g11\<lparr>fz_random := Some ((rng_next ^^ 254) (R 261)), buffer6 := b6\<rparr>, None)"
      and b6: "length b6 = 256"
    using randomize_string_6 [of g11 "R 261" "va\<lparr>arr_data := d4\<rparr>"] g10 d4 basics
    by (auto simp add: g11_def)
  define g12 where "g12 = g11\<lparr>fz_random := Some (R 515), buffer6 := b6\<rparr>"
  have E12: "randomize_string g11 6 = Inr (g12, None)"
    using E12' by (simp add: g12_def R515)
  have vg0: "(variates g0 = None) = False"
    using va by (simp add: g0_def)
  have run: "iofuzzer_randomize' f = Inr (g12, None)"
    unfolding iofuzzer_randomize'_def
    by (simp only: E0 and_then_Inr Let_def option.case g0_def [symmetric] vg0 if_False prod.case
        E1 E2 E3 E4 E5 E6 E7 E8 E9 E10 E11 E12)
  have "g12 = f\<lparr>state := take 8 (rnd_state r),
                fz_random := Some ((rng_next ^^ 515) r),
                variates := Some (va\<lparr>arr_data := (arr_data va)
                   [0 := Some (rng_val r 0 11), 1 := Some v1, 2 := Some v2,
                    3 := Some (rng_val ((rng_next ^^ 5) r) 1 64), 4 := Some v4]\<rparr>),
                buffer5 := b5, buffer6 := b6\<rparr>"
    by (simp add: g12_def g11_def g10_def g9_def g8_def g7_def g6_def g5_def g4_def g3_def g2_def
        g1_def g0_def d4_def d3_def d2_def d1_def d0_def v0_def v3_def R_def)
  with run b5 b6 v4 show ?thesis by blast
qed


lemma ports_in_range_nth:
  assumes "ports_in_range p" "k < max 1 (arr_length p)" "arr_data p ! k = Some v"
    and "max 1 (arr_length p) \<le> length (arr_data p)"
  shows "v \<le> 0xffff"
proof -
  have "list_all (\<lambda>x. case x of None \<Rightarrow> False | Some v \<Rightarrow> v \<le> MAXPORT) (take (max 1 (arr_length p)) (arr_data p))"
    using assms(1) by (simp add: ports_in_range_def)
  then have "case arr_data p ! k of None \<Rightarrow> False | Some v \<Rightarrow> v \<le> MAXPORT"
    using assms(2,4) by (auto simp add: list_all_length)
  then show ?thesis
    using assms(3) by (simp add: MAXPORT_def)
qed

lemma iofuzzer_randomize'_summary:
  assumes "fuzzer_wf f"
  obtains f' r va va' where
    "fz_random f = Some r" "variates f = Some va"
    "iofuzzer_randomize' f = Inr (f', None)" "fuzzer_wf f'"
    "state f' = take 8 (rnd_state r)" "fz_random f' = Some ((rng_next ^^ 515) r)"
    "ports f' = ports f" "io_trace f' = io_trace f" "variate5 f' = variate5 f"
    "variate6 f' = variate6 f" "fz_refcount f' = fz_refcount f"
    "variates f' = Some va'" "arr_length va' = arr_length va"
    "length (arr_data va') = length (arr_data va)"
    "arr_data va' ! 0 = Some (rng_val r 0 11)"
    "\<exists>v3. arr_data va' ! 3 = Some v3 \<and> 1 \<le> v3 \<and> v3 \<le> 64"
    "\<exists>v4. arr_data va' ! 4 = Some v4
        \<and> ((case ports f of None \<Rightarrow> True | Some p \<Rightarrow> ports_in_range p) \<longrightarrow> v4 \<le> 0xffff)"
proof -
  obtain r va where r: "fz_random f = Some r" and va: "variates f = Some va"
    using assms by (auto simp add: fuzzer_wf_def split: option.splits)
  have basics: "length (rnd_state r) = 256" "length (state f) = 8" "7 \<le> length (arr_data va)"
      "arr_data va ! 5 = Some (variate5 f)" "arr_data va ! 6 = Some (variate6 f)"
      "variate5 f \<noteq> 0" "variate6 f \<noteq> 0" "variate5 f \<noteq> variate6 f"
      "length (buffer5 f) = 256" "length (buffer6 f) = 256"
      "case ports f of None \<Rightarrow> True | Some p \<Rightarrow> ports_readable p"
    using assms r va by (simp_all add: fuzzer_wf_def MAXSIZE_def NUM_VARIATES_def)
  have ne: "arr_data va \<noteq> []"
    using basics(3) by auto
  from iofuzzer_randomize'_result [OF assms r va]
  obtain v1 v2 v4 b5 b6 where
    run: "iofuzzer_randomize' f
       = Inr (f\<lparr>state := take 8 (rnd_state r),
                fz_random := Some ((rng_next ^^ 515) r),
                variates := Some (va\<lparr>arr_data := (arr_data va)
                   [0 := Some (rng_val r 0 11), 1 := Some v1, 2 := Some v2,
                    3 := Some (rng_val ((rng_next ^^ 5) r) 1 64), 4 := Some v4]\<rparr>),
                buffer5 := b5, buffer6 := b6\<rparr>, None)"
    and b: "length b5 = 256" "length b6 = 256"
    and v4: "case ports f of
           None \<Rightarrow> v4 \<le> 0xffff
         | Some p \<Rightarrow> \<exists>k < max 1 (arr_length p). arr_data p ! k = Some v4"
    by blast
  define va' where "va' = va\<lparr>arr_data := (arr_data va)
                   [0 := Some (rng_val r 0 11), 1 := Some v1, 2 := Some v2,
                    3 := Some (rng_val ((rng_next ^^ 5) r) 1 64), 4 := Some v4]\<rparr>"
  define f' where "f' = f\<lparr>state := take 8 (rnd_state r),
                fz_random := Some ((rng_next ^^ 515) r),
                variates := Some va', buffer5 := b5, buffer6 := b6\<rparr>"
  have run': "iofuzzer_randomize' f = Inr (f', None)"
    using run by (simp add: f'_def va'_def)
  have nth: "arr_data va' ! 0 = Some (rng_val r 0 11)" "arr_data va' ! 1 = Some v1"
      "arr_data va' ! 2 = Some v2" "arr_data va' ! 3 = Some (rng_val ((rng_next ^^ 5) r) 1 64)"
      "arr_data va' ! 4 = Some v4" "arr_data va' ! 5 = Some (variate5 f)"
      "arr_data va' ! 6 = Some (variate6 f)" "length (arr_data va') = length (arr_data va)"
      "arr_length va' = arr_length va"
    using basics(3,4,5) ne by (simp_all add: va'_def)
  have "length (rnd_state ((rng_next ^^ 515) r)) = 256"
    using basics(1) by (simp add: length_rng_next_funpow)
  then have wf': "fuzzer_wf f'"
    using basics nth b by (simp add: fuzzer_wf_def f'_def MAXSIZE_def NUM_VARIATES_def)
  have v3: "\<exists>v3. arr_data va' ! 3 = Some v3 \<and> 1 \<le> v3 \<and> v3 \<le> 64"
    using random_ulong_with_range_eq [of 1 64 "(rng_next ^^ 5) r"] nth(4) by simp
  have v4': "\<exists>v4. arr_data va' ! 4 = Some v4
        \<and> ((case ports f of None \<Rightarrow> True | Some p \<Rightarrow> ports_in_range p) \<longrightarrow> v4 \<le> 0xffff)"
  proof (cases "ports f")
    case None
    then show ?thesis using v4 nth(5) by simp
  next
    case (Some p)
    then obtain k where k: "k < max 1 (arr_length p)" "arr_data p ! k = Some v4"
      using v4 by auto
    have "max 1 (arr_length p) \<le> length (arr_data p)"
      using basics(11) Some by (simp add: ports_readable_def)
    then have "ports_in_range p \<longrightarrow> v4 \<le> 0xffff"
      using ports_in_range_nth [OF _ k] by blast
    then show ?thesis using Some nth(5) by simp
  qed
  show ?thesis
    by (rule that [OF r va run' wf' _ _ _ _ _ _ _ _ nth(9) nth(8) nth(1) v3 v4'])
      (simp_all add: f'_def)
qed


lemma seven_elements:
  "7 \<le> length xs \<Longrightarrow> \<exists>x0 x1 x2 x3 x4 x5 x6 rest. xs = x0 # x1 # x2 # x3 # x4 # x5 # x6 # rest"
  by (auto simp add: numeral_eq_Suc Suc_le_length_iff)

lemma fuzzer_wf_variates:
  assumes "fuzzer_wf f"
  obtains va v0 v1 v2 v3 v4 rest where
    "variates f = Some va"
    "arr_data va = Some v0 # Some v1 # Some v2 # Some v3 # Some v4 # Some (variate5 f) # Some (variate6 f) # rest"
proof -
  obtain va where va: "variates f = Some va"
    using assms by (auto simp add: fuzzer_wf_def split: option.splits)
  then have "7 \<le> length (arr_data va)"
    using assms by (simp add: fuzzer_wf_def NUM_VARIATES_def)
  then obtain x0 x1 x2 x3 x4 x5 x6 rest where d: "arr_data va = x0 # x1 # x2 # x3 # x4 # x5 # x6 # rest"
    using seven_elements by blast
  then have "x0 \<noteq> None" "x1 \<noteq> None" "x2 \<noteq> None" "x3 \<noteq> None" "x4 \<noteq> None"
      "x5 = Some (variate5 f)" "x6 = Some (variate6 f)"
    using assms va by (simp_all add: fuzzer_wf_def)
  then show ?thesis
    using that [OF va] d by auto
qed

lemma iofuzzer_io_result:
  assumes "fuzzer_wf f" "variates f = Some va" "arr_data va ! 3 = Some v3" "v3 \<le> 64"
  shows "\<exists>b. iofuzzer_io dev fn f
             = Inr (f\<lparr>io_trace := io_trace f @ [(fn, drop 1 (variate_tuple f))], buffer6 := b\<rparr>)
           \<and> length b = 256"
proof -
  obtain va' v0 v1 v2 v3' v4 rest where va': "variates f = Some va'" and
    d': "arr_data va' = Some v0 # Some v1 # Some v2 # Some v3' # Some v4 # Some (variate5 f) # Some (variate6 f) # rest"
    by (rule fuzzer_wf_variates [OF assms(1)])
  have "va' = va"
    using va' assms(2) by simp
  then have d: "arr_data va = Some v0 # Some v1 # Some v2 # Some v3' # Some v4 # Some (variate5 f) # Some (variate6 f) # rest"
    using d' by simp
  have v3': "v3' = v3"
    using assms(3) d by simp
  have bufs: "variate5 f \<noteq> 0" "variate6 f \<noteq> 0" "variate5 f \<noteq> variate6 f"
      "length (buffer5 f) = 256" "length (buffer6 f) = 256"
    using assms(1) by (simp_all add: fuzzer_wf_def MAXSIZE_def)
  define n where "n = unat v3 * func_width fn"
  have "unat v3 \<le> 64"
    using assms(4) by (simp add: word_le_nat_alt)
  moreover have "func_width fn \<le> 4"
    by (cases fn) simp_all
  ultimately have "unat v3 * func_width fn \<le> 64 * 4"
    by (rule mult_le_mono)
  then have n: "n \<le> 256"
    by (simp add: n_def)
  define f' where "f' = f\<lparr>io_trace := io_trace f @ [(fn, drop 1 (variate_tuple f))]\<rparr>"
  have tuple: "drop 1 (variate_tuple f) = [v1, v2, v3, v4, variate5 f, variate6 f]"
    using assms(2) d v3' by (simp add: variate_tuple_def NUM_VARIATES_def)
  have io: "iofuzzer_io dev fn f
      = (if is_ins fn then store_bytes f' (variate6 f) (map dev [0..<n])
         else if is_outs fn then and_then (load_bytes f' (variate5 f) n) (\<lambda>bs. Inr f')
         else Inr f')"
    using assms(2) d v3' tuple
    by (simp add: iofuzzer_io_def array_index_def Let_def f'_def n_def)
  have store: "\<exists>b. store_bytes f' (variate6 f) (map dev [0..<n]) = Inr (f'\<lparr>buffer6 := b\<rparr>) \<and> length b = 256"
  proof (cases "n = 0")
    case True
    then show ?thesis
      using bufs by (intro exI [of _ "buffer6 f"]) (simp add: store_bytes_def f'_def)
  next
    case False
    then show ?thesis
      using bufs n
      by (intro exI [of _ "map dev [0..<n] @ drop n (buffer6 f)"]) (simp add: store_bytes_def f'_def)
  qed
  have load: "and_then (load_bytes f' (variate5 f) n) (\<lambda>bs. Inr f') = Inr (f'\<lparr>buffer6 := buffer6 f\<rparr>)"
    using bufs n by (simp add: load_bytes_def f'_def)
  have plain: "Inr f' = (Inr (f'\<lparr>buffer6 := buffer6 f\<rparr>) :: fault + iofuzzer)"
    by (simp add: f'_def)
  show ?thesis
  proof (cases "is_ins fn")
    case True
    then show ?thesis using io store by (auto simp add: f'_def)
  next
    case False
    then show ?thesis
      using io load plain bufs(5)
      by (intro exI [of _ "buffer6 f"]) (simp add: f'_def)
  qed
qed


lemma iofuzzer_randomize'_good:
  assumes wf: "fuzzer_wf f" and va: "variates f = Some va" and len: "arr_length va = 7"
    and pr: "case ports f of None \<Rightarrow> True | Some p \<Rightarrow> ports_in_range p"
    and r: "fz_random f = Some r"
  obtains f' where "iofuzzer_randomize' f = Inr (f', None)" "fuzzer_good f'"
    "state f' = take 8 (rnd_state r)" "fz_random f' = Some ((rng_next ^^ 515) r)"
    "ports f' = ports f" "io_trace f' = io_trace f" "variate5 f' = variate5 f"
    "variate6 f' = variate6 f" "fz_refcount f' = fz_refcount f"
    "variate_tuple f' ! 0 = rng_val r 0 11"
proof -
  obtain f' r0 va0 va' where s:
    "fz_random f = Some r0" "variates f = Some va0"
    "iofuzzer_randomize' f = Inr (f', None)" "fuzzer_wf f'"
    "state f' = take 8 (rnd_state r0)" "fz_random f' = Some ((rng_next ^^ 515) r0)"
    "ports f' = ports f" "io_trace f' = io_trace f" "variate5 f' = variate5 f"
    "variate6 f' = variate6 f" "fz_refcount f' = fz_refcount f"
    "variates f' = Some va'" "arr_length va' = arr_length va0"
    "length (arr_data va') = length (arr_data va0)"
    "arr_data va' ! 0 = Some (rng_val r0 0 11)"
    "\<exists>v3. arr_data va' ! 3 = Some v3 \<and> 1 \<le> v3 \<and> v3 \<le> 64"
    "\<exists>v4. arr_data va' ! 4 = Some v4
        \<and> ((case ports f of None \<Rightarrow> True | Some p \<Rightarrow> ports_in_range p) \<longrightarrow> v4 \<le> 0xffff)"
    by (rule iofuzzer_randomize'_summary [OF wf])
  have eq: "r0 = r" "va0 = va"
    using s(1,2) r va by simp_all
  have l7: "7 \<le> length (arr_data va')"
    using s(4,12) by (simp add: fuzzer_wf_def NUM_VARIATES_def)
  have v0: "rng_val r 0 11 \<le> 11"
    using random_ulong_with_range_eq [of 0 11 r] by simp
  obtain v3 v4 where v: "arr_data va' ! 3 = Some v3" "1 \<le> v3" "v3 \<le> 64"
      "arr_data va' ! 4 = Some v4" "v4 \<le> 0xffff"
    using s(16,17) pr by auto
  have inv: "fuzzer_invariant f'"
    using s(12,13,15) eq len l7 v0 v by (simp add: fuzzer_invariant_def)
  have good: "fuzzer_good f'"
    using inv s(4,7) pr by (simp add: fuzzer_good_def)
  have t0: "variate_tuple f' ! 0 = rng_val r 0 11"
    using s(12,15) eq l7 by (simp add: variate_tuple_def NUM_VARIATES_def)
  show ?thesis
    using that [OF s(3) good _ _ s(7,8,9,10,11) t0] s(5,6) eq by simp
qed

lemma fuzzer_good_slots:
  assumes "fuzzer_good f"
  obtains va v0 v3 where "variates f = Some va" "arr_length va = 7"
    "arr_data va ! 0 = Some v0" "v0 \<le> 11" "arr_data va ! 3 = Some v3" "v3 \<le> 64"
  using assms
  by (auto simp add: fuzzer_good_def fuzzer_invariant_def split: option.splits)

lemma iofuzzer_iterate'_good:
  assumes good: "fuzzer_good f" and r: "fz_random f = Some r"
  obtains f' where "iofuzzer_iterate' dev f = Inr (f', None)" "fuzzer_good f'"
    "io_trace f' = io_trace f @ [dispatched (variate_tuple f)]"
    "state f' = take 8 (rnd_state r)" "fz_random f' = Some ((rng_next ^^ 515) r)"
    "ports f' = ports f" "variate5 f' = variate5 f" "variate6 f' = variate6 f"
    "fz_refcount f' = fz_refcount f" "variate_tuple f' ! 0 = rng_val r 0 11"
proof -
  obtain va v0 v3 where sl: "variates f = Some va" "arr_length va = 7"
      "arr_data va ! 0 = Some v0" "v0 \<le> 11" "arr_data va ! 3 = Some v3" "v3 \<le> 64"
    by (rule fuzzer_good_slots [OF good])
  have wf: "fuzzer_wf f" and pr: "case ports f of None \<Rightarrow> True | Some p \<Rightarrow> ports_in_range p"
    using good by (simp_all add: fuzzer_good_def)
  have l7: "7 \<le> length (arr_data va)"
    using wf sl(1) by (simp add: fuzzer_wf_def NUM_VARIATES_def)
  have "unat v0 \<le> 11"
    using sl(4) by (simp add: word_le_nat_alt)
  then have v0: "unat v0 < NUM_FUNCS"
    by (simp add: NUM_FUNCS_def FUNCS_def)
  have t0: "variate_tuple f ! 0 = v0"
    using sl(1,3) l7 by (simp add: variate_tuple_def NUM_VARIATES_def)
  obtain b where io: "iofuzzer_io dev (FUNCS ! unat v0) f
        = Inr (f\<lparr>io_trace := io_trace f @ [(FUNCS ! unat v0, drop 1 (variate_tuple f))], buffer6 := b\<rparr>)"
      and b: "length b = 256"
    using iofuzzer_io_result [OF wf sl(1,5,6)] by blast
  define f1 where "f1 = f\<lparr>io_trace := io_trace f @ [dispatched (variate_tuple f)], buffer6 := b\<rparr>"
  have io': "iofuzzer_io dev (FUNCS ! unat v0) f = Inr f1"
    using io by (simp add: f1_def dispatched_def t0)
  have l0: "arr_data va \<noteq> []"
    using l7 by auto
  have step: "iofuzzer_iterate' dev f = iofuzzer_randomize' f1"
    using sl(1,3) l0 v0 io' by (simp add: iofuzzer_iterate'_def array_index_def)
  have wf1: "fuzzer_wf f1"
    using wf b sl(1) r by (simp add: fuzzer_wf_def f1_def MAXSIZE_def)
  have f1: "variates f1 = Some va" "fz_random f1 = Some r" "ports f1 = ports f"
    using sl(1) r by (simp_all add: f1_def)
  have pr1: "case ports f1 of None \<Rightarrow> True | Some p \<Rightarrow> ports_in_range p"
    using pr by (simp add: f1_def)
  obtain f' where res: "iofuzzer_randomize' f1 = Inr (f', None)" "fuzzer_good f'"
    "state f' = take 8 (rnd_state r)" "fz_random f' = Some ((rng_next ^^ 515) r)"
    "ports f' = ports f1" "io_trace f' = io_trace f1" "variate5 f' = variate5 f1"
    "variate6 f' = variate6 f1" "fz_refcount f' = fz_refcount f1"
    "variate_tuple f' ! 0 = rng_val r 0 11"
    by (rule iofuzzer_randomize'_good [OF wf1 f1(1) sl(2) pr1 f1(2)])
  show ?thesis
    using that [of f'] step res by (simp add: f1_def)
qed

lemma iofuzzer_set_state'_good:
  assumes good: "fuzzer_good f" and r: "fz_random f = Some r"
    and c: "c = min (max n MINSIZE) MAXSIZE" and S: "c \<le> length S"
  obtains f' where "iofuzzer_set_state' f (Some S) n = Inr (Some f', None)" "fuzzer_good f'"
    "state f' = take 8 (take c S @ drop c (rnd_state r))"
    "fz_random f' = Some ((rng_next ^^ 515) (r\<lparr>rnd_state := take c S @ drop c (rnd_state r)\<rparr>))"
    "ports f' = ports f" "io_trace f' = io_trace f" "variate5 f' = variate5 f"
    "variate6 f' = variate6 f" "fz_refcount f' = fz_refcount f"
    "variate_tuple f' ! 0 = rng_val (r\<lparr>rnd_state := take c S @ drop c (rnd_state r)\<rparr>) 0 11"
proof -
  obtain va v0 v3 where sl: "variates f = Some va" "arr_length va = 7"
      "arr_data va ! 0 = Some v0" "v0 \<le> 11" "arr_data va ! 3 = Some v3" "v3 \<le> 64"
    by (rule fuzzer_good_slots [OF good])
  have wf: "fuzzer_wf f" and pr: "case ports f of None \<Rightarrow> True | Some p \<Rightarrow> ports_in_range p"
    using good by (simp_all add: fuzzer_good_def)
  have lr: "length (rnd_state r) = 256"
    using wf r by (simp add: fuzzer_wf_def MAXSIZE_def)
  have c256: "c \<le> 256"
    using c by (simp add: MAXSIZE_def)
  define r' where "r' = r\<lparr>rnd_state := take c S @ drop c (rnd_state r)\<rparr>"
  have lr': "length (rnd_state r') = 256"
    using lr c256 S by (simp add: r'_def)
  have "memcpy (rnd_state r) S c = Inr (take c S @ drop c (rnd_state r))"
    using S lr c256 by (simp add: memcpy_def)
  then have set: "random_set_state (fz_random f) (Some S) n = Inr (Some r')"
    using r by (simp add: random_set_state_def r'_def c [symmetric])
  define f1 where "f1 = f\<lparr>fz_random := Some r'\<rparr>"
  have step: "iofuzzer_set_state' f (Some S) n
      = and_then (iofuzzer_randomize' f1) (\<lambda>(f', e). Inr (Some f', e))"
    using set by (simp add: iofuzzer_set_state'_def f1_def)
  have wf1: "fuzzer_wf f1"
    using wf lr' sl(1) by (simp add: fuzzer_wf_def f1_def MAXSIZE_def)
  have f1: "variates f1 = Some va" "fz_random f1 = Some r'"
    using sl(1) by (simp_all add: f1_def)
  have pr1: "case ports f1 of None \<Rightarrow> True | Some p \<Rightarrow> ports_in_range p"
    using pr by (simp add: f1_def)
  obtain f' where res: "iofuzzer_randomize' f1 = Inr (f', None)" "fuzzer_good f'"
    "state f' = take 8 (rnd_state r')" "fz_random f' = Some ((rng_next ^^ 515) r')"
    "ports f' = ports f1" "io_trace f' = io_trace f1" "variate5 f' = variate5 f1"
    "variate6 f' = variate6 f1" "fz_refcount f' = fz_refcount f1"
    "variate_tuple f' ! 0 = rng_val r' 0 11"
    by (rule iofuzzer_randomize'_good [OF wf1 f1(1) sl(2) pr1 f1(2)])
  show ?thesis
    using that [of f'] step res by (simp add: f1_def r'_def)
qed

lemma iofuzzer_set_state'_overread:
  assumes "fz_random f = Some r" "length (rnd_state r) = MAXSIZE" "length S < min (max n MINSIZE) MAXSIZE"
  shows "iofuzzer_set_state' f (Some S) n = Inl OutOfBounds"
  using assms by (simp add: iofuzzer_set_state'_def random_set_state_def memcpy_def)


lemma array_grow_loop_28: "array_grow_loop 2 28 (Suc 0) 4 = Some (Inr 32)"
  by (simp add: array_grow_loop.simps float_round_exact)

lemma array_new_with_length_variates:
  "array_new_with_length 4 NUM_VARIATES
     = Some (Inr (Some \<lparr>arr_data = replicate 8 (Some (0 :: ulong)), arr_refcount = 1, element_size = 4,
          growth_factor = 2, arr_length = 7, arr_size = 32\<rparr>))"
  by (simp add: array_new_with_length_def NUM_VARIATES_def array_set_length'_def array_new_def
      array_grow'_def array_length_to_size_def array_grow_loop_28 realloc_def MINLENGTH_def)

lemma iofuzzer_new_blank:
  "iofuzzer_new a5 a6
     = Some (and_then (iofuzzer_randomize' (blank_fuzzer a5 a6)) (\<lambda>(f, e).
         Inr (snd (snd (iofuzzer_ref (Some f))))))"
  by (simp add: iofuzzer_new_def array_new_with_length_variates set_variate_def array_index_set_def
      blank_fuzzer_def replicate_numeral_Cons)

lemma fuzzer_wf_blank:
  assumes "a5 \<noteq> 0" "a6 \<noteq> 0" "a5 \<noteq> a6"
  shows "fuzzer_wf (blank_fuzzer a5 a6)"
  using assms by (simp add: fuzzer_wf_def blank_fuzzer_def random_new_def MAXSIZE_def NUM_VARIATES_def)

lemma iofuzzer_new_good:
  assumes "a5 \<noteq> 0" "a6 \<noteq> 0" "a5 \<noteq> a6"
  obtains f where "iofuzzer_new a5 a6 = Some (Inr (Some f))" "fuzzer_good f"
    "state f = replicate 8 0" "fz_random f = Some ((rng_next ^^ 515) random_new)"
    "ports f = None" "io_trace f = []" "variate5 f = a5" "variate6 f = a6" "fz_refcount f = 1"
proof -
  let ?b = "blank_fuzzer a5 a6"
  have b: "variates ?b = Some \<lparr>arr_data = [Some 0, Some 0, Some 0, Some 0, Some 0, Some a5, Some a6, Some 0],
                       arr_refcount = 1, element_size = 4, growth_factor = 2, arr_length = 7,
                       arr_size = 32\<rparr>"
      "case ports ?b of None \<Rightarrow> True | Some p \<Rightarrow> ports_in_range p"
      "fz_random ?b = Some random_new"
    by (simp_all add: blank_fuzzer_def)
  obtain f' where res: "iofuzzer_randomize' ?b = Inr (f', None)" "fuzzer_good f'"
    "state f' = take 8 (rnd_state random_new)" "fz_random f' = Some ((rng_next ^^ 515) random_new)"
    "ports f' = ports ?b" "io_trace f' = io_trace ?b" "variate5 f' = variate5 ?b"
    "variate6 f' = variate6 ?b" "fz_refcount f' = fz_refcount ?b"
    "variate_tuple f' ! 0 = rng_val random_new 0 11"
    by (rule iofuzzer_randomize'_good [OF fuzzer_wf_blank [OF assms] b(1) _ b(2,3)]) simp
  define f where "f = f'\<lparr>fz_refcount := 1\<rparr>"
  have new: "iofuzzer_new a5 a6 = Some (Inr (Some f))"
    using res(1,9) by (simp add: iofuzzer_new_blank iofuzzer_ref_def f_def blank_fuzzer_def)
  have good: "fuzzer_good f"
    using res(2)
    by (simp add: f_def fuzzer_good_def fuzzer_wf_def fuzzer_invariant_def split: option.splits)
  show ?thesis
    using that [OF new good] res
    by (simp add: f_def blank_fuzzer_def random_new_def MAXSIZE_def)
qed


lemma rng_next_refcount: "rnd_refcount (rng_next r) = rnd_refcount r"
  by (simp add: rng_next_def)

lemma rng_next_funpow_refcount: "rnd_refcount ((rng_next ^^ n) r) = rnd_refcount r"
  by (induction n) (simp_all add: rng_next_refcount)

lemma drop_6_rng_next: "6 \<le> length (rnd_state r) \<Longrightarrow> drop 6 (rnd_state (rng_next r)) = drop 6 (rnd_state r)"
  by (simp add: rng_next_def erand48_def Let_def)

lemma drop_6_rng_next_funpow:
  "6 \<le> length (rnd_state r) \<Longrightarrow> drop 6 (rnd_state ((rng_next ^^ n) r)) = drop 6 (rnd_state r)"
proof (induction n)
  case 0
  then show ?case by simp
next
  case (Suc n)
  have "6 \<le> length (rnd_state ((rng_next ^^ n) r))"
    using Suc.prems by (simp add: length_rng_next_funpow)
  then show ?case
    using Suc by (simp add: drop_6_rng_next)
qed

text \<open>Writing the first 8 bytes that a generator had back into it, after any number of
  draws, gives the generator as it was.\<close>

lemma rng_rewind:
  assumes "6 \<le> length (rnd_state r)"
  shows "((rng_next ^^ n) r)\<lparr>rnd_state := take 8 (rnd_state r) @ drop 8 (rnd_state ((rng_next ^^ n) r))\<rparr> = r"
proof -
  have "drop 2 (drop 6 (rnd_state ((rng_next ^^ n) r))) = drop 2 (drop 6 (rnd_state r))"
    by (simp only: drop_6_rng_next_funpow [OF assms])
  then have "drop 8 (rnd_state ((rng_next ^^ n) r)) = drop 8 (rnd_state r)"
    by simp
  then show ?thesis
    by (simp add: rng_next_funpow_refcount)
qed

lemma rng_val_refcount: "rng_val (r\<lparr>rnd_refcount := k\<rparr>) b e = rng_val r b e"
  by (simp add: rng_val_def)

lemma array_ref_ports:
  assumes "case p of None \<Rightarrow> True | Some a \<Rightarrow> ports_readable a \<and> ports_in_range a"
  shows "case array_ref p of None \<Rightarrow> True | Some a \<Rightarrow> ports_readable a"
    and "case array_ref p of None \<Rightarrow> True | Some a \<Rightarrow> ports_in_range a"
  using assms by (simp_all add: array_ref_def ports_readable_def ports_in_range_def split: option.splits)

lemma fuzzer_good_random:
  assumes "fuzzer_good f"
  obtains r where "fz_random f = Some r" "length (rnd_state r) = 256"
  using assms by (auto simp add: fuzzer_good_def fuzzer_wf_def MAXSIZE_def split: option.splits)

lemma iofuzzer_randomize'_keeps_good:
  assumes good: "fuzzer_good f" and r: "fz_random f = Some r"
  obtains f' where "iofuzzer_randomize' f = Inr (f', None)" "fuzzer_good f'"
    "state f' = take 8 (rnd_state r)" "fz_random f' = Some ((rng_next ^^ 515) r)"
    "ports f' = ports f" "io_trace f' = io_trace f" "variate5 f' = variate5 f"
    "variate6 f' = variate6 f" "fz_refcount f' = fz_refcount f"
    "variate_tuple f' ! 0 = rng_val r 0 11"
proof -
  obtain va v0 v3 where sl: "variates f = Some va" "arr_length va = 7"
      "arr_data va ! 0 = Some v0" "v0 \<le> 11" "arr_data va ! 3 = Some v3" "v3 \<le> 64"
    by (rule fuzzer_good_slots [OF good])
  have wf: "fuzzer_wf f" and pr: "case ports f of None \<Rightarrow> True | Some p \<Rightarrow> ports_in_range p"
    using good by (simp_all add: fuzzer_good_def)
  show ?thesis
    by (rule iofuzzer_randomize'_good [OF wf sl(1,2) pr r]) (rule that)
qed

text \<open>\<^verbatim>\<open>iofuzzer_set_ports\<close> step by step.\<close>

lemma iofuzzer_set_ports_steps:
  assumes good: "fuzzer_good f" and r: "fz_random f = Some r"
    and p: "case p of None \<Rightarrow> True | Some a \<Rightarrow> ports_readable a \<and> ports_in_range a"
    and r0: "r0 = r\<lparr>rnd_state := state f @ drop 8 (rnd_state r)\<rparr>"
  obtains f1 f2 where
    "iofuzzer_randomize' (f\<lparr>ports := array_ref p, fz_random := Some r0\<rparr>) = Inr (f1, None)"
    "iofuzzer_randomize' f1 = Inr (f2, None)"
    "iofuzzer_set_ports (Some f) p = Inr (FUZZER, (if p = None then Some EINVAL else None), Some f2)"
    "fuzzer_good f2" "state f1 = state f" "fz_random f1 = Some ((rng_next ^^ 515) r0)"
    "state f2 = take 8 (rnd_state ((rng_next ^^ 515) r0))"
    "fz_random f2 = Some ((rng_next ^^ 515) ((rng_next ^^ 515) r0))"
    "variate_tuple f1 ! 0 = rng_val r0 0 11"
    "variate_tuple f2 ! 0 = rng_val ((rng_next ^^ 515) r0) 0 11"
    "ports f2 = array_ref p" "io_trace f2 = io_trace f"
proof -
  define f0 where "f0 = f\<lparr>ports := array_ref p\<rparr>"
  have wf: "fuzzer_wf f" and inv: "fuzzer_invariant f"
    using good by (simp_all add: fuzzer_good_def)
  have l8: "length (state f) = 8"
    using wf by (simp add: fuzzer_wf_def)
  have wf0: "fuzzer_wf f0"
    using wf array_ref_ports(1) [OF p] by (simp add: fuzzer_wf_def f0_def split: option.splits)
  have inv0: "fuzzer_invariant f0"
    using inv by (simp add: fuzzer_invariant_def f0_def)
  have good0: "fuzzer_good f0"
    using wf0 inv0 array_ref_ports(2) [OF p] by (simp add: fuzzer_good_def f0_def)
  have rf0: "fz_random f0 = Some r"
    using r by (simp add: f0_def)
  have st0: "state f0 = state f"
    by (simp add: f0_def)
  have c: "8 = min (max 8 MINSIZE) MAXSIZE"
    by (simp add: MINSIZE_def MAXSIZE_def)
  have S: "8 \<le> length (state f)"
    using l8 by simp
  have r0': "r\<lparr>rnd_state := take 8 (state f) @ drop 8 (rnd_state r)\<rparr> = r0"
    using l8 r0 by simp
  obtain f1 where s1: "iofuzzer_set_state' f0 (Some (state f)) 8 = Inr (Some f1, None)" "fuzzer_good f1"
    "state f1 = take 8 (take 8 (state f) @ drop 8 (rnd_state r))"
    "fz_random f1 = Some ((rng_next ^^ 515) (r\<lparr>rnd_state := take 8 (state f) @ drop 8 (rnd_state r)\<rparr>))"
    "ports f1 = ports f0" "io_trace f1 = io_trace f0" "variate5 f1 = variate5 f0"
    "variate6 f1 = variate6 f0" "fz_refcount f1 = fz_refcount f0"
    "variate_tuple f1 ! 0 = rng_val (r\<lparr>rnd_state := take 8 (state f) @ drop 8 (rnd_state r)\<rparr>) 0 11"
    by (rule iofuzzer_set_state'_good [OF good0 rf0 c S])
  have mem: "memcpy (rnd_state r) (state f) 8 = Inr (state f @ drop 8 (rnd_state r))"
    using l8 wf r by (simp add: memcpy_def fuzzer_wf_def MAXSIZE_def)
  have unfold: "iofuzzer_set_state' f0 (Some (state f)) 8
      = and_then (iofuzzer_randomize' (f\<lparr>ports := array_ref p, fz_random := Some r0\<rparr>))
          (\<lambda>(f', e). Inr (Some f', e))"
    using r mem c [symmetric]
    by (simp add: iofuzzer_set_state'_def random_set_state_def f0_def r0)
  have run1: "iofuzzer_randomize' (f\<lparr>ports := array_ref p, fz_random := Some r0\<rparr>) = Inr (f1, None)"
    using s1(1) unfolding unfold
    by (cases "iofuzzer_randomize' (f\<lparr>ports := array_ref p, fz_random := Some r0\<rparr>)") auto
  have rf1: "fz_random f1 = Some ((rng_next ^^ 515) r0)"
    using s1(4) r0' by simp
  obtain f2 where s2: "iofuzzer_randomize' f1 = Inr (f2, None)" "fuzzer_good f2"
    "state f2 = take 8 (rnd_state ((rng_next ^^ 515) r0))"
    "fz_random f2 = Some ((rng_next ^^ 515) ((rng_next ^^ 515) r0))"
    "ports f2 = ports f1" "io_trace f2 = io_trace f1" "variate5 f2 = variate5 f1"
    "variate6 f2 = variate6 f1" "fz_refcount f2 = fz_refcount f1"
    "variate_tuple f2 ! 0 = rng_val ((rng_next ^^ 515) r0) 0 11"
    by (rule iofuzzer_randomize'_keeps_good [OF s1(2) rf1])
  have call: "iofuzzer_set_ports (Some f) p = Inr (FUZZER, (if p = None then Some EINVAL else None), Some f2)"
    using s1(1) s2(1) st0
    by (simp add: iofuzzer_set_ports_def Let_def f0_def [symmetric] errno_then_def)
  show ?thesis
    using that [OF run1 s2(1) call s2(2) _ rf1 s2(3,4) _ s2(10)] s1 s2 l8 r0'
    by (simp add: f0_def)
qed

lemma iofuzzer_set_random_steps:
  assumes good: "fuzzer_good f" and g: "length (rnd_state g) = MAXSIZE"
  obtains f1 where
    "iofuzzer_randomize' (f\<lparr>fz_random := random_ref (Some g)\<rparr>) = Inr (f1, None)"
    "iofuzzer_set_random (Some f) (Some g) = Inr (FUZZER, None, Some f1)"
    "fuzzer_good f1" "state f1 = take 8 (rnd_state g)"
    "fz_random f1 = Some ((rng_next ^^ 515) (g\<lparr>rnd_refcount := rnd_refcount g + 1\<rparr>))"
    "variate_tuple f1 ! 0 = rng_val g 0 11"
    "ports f1 = ports f" "io_trace f1 = io_trace f"
proof -
  define g' where "g' = g\<lparr>rnd_refcount := rnd_refcount g + 1\<rparr>"
  define f0 where "f0 = f\<lparr>fz_random := Some g'\<rparr>"
  have wf: "fuzzer_wf f" and inv: "fuzzer_invariant f"
      and pr: "case ports f of None \<Rightarrow> True | Some p \<Rightarrow> ports_in_range p"
    using good by (simp_all add: fuzzer_good_def)
  have wf0: "fuzzer_wf f0"
    using wf g by (simp add: fuzzer_wf_def f0_def g'_def split: option.splits)
  have inv0: "fuzzer_invariant f0"
    using inv by (simp add: fuzzer_invariant_def f0_def)
  have good0: "fuzzer_good f0"
    using wf0 inv0 pr by (simp add: fuzzer_good_def f0_def)
  have rf0: "fz_random f0 = Some g'"
    by (simp add: f0_def)
  have f0: "f\<lparr>fz_random := random_ref (Some g)\<rparr> = f0"
    by (simp add: f0_def g'_def random_ref_def)
  obtain f1 where s: "iofuzzer_randomize' f0 = Inr (f1, None)" "fuzzer_good f1"
    "state f1 = take 8 (rnd_state g')" "fz_random f1 = Some ((rng_next ^^ 515) g')"
    "ports f1 = ports f0" "io_trace f1 = io_trace f0" "variate5 f1 = variate5 f0"
    "variate6 f1 = variate6 f0" "fz_refcount f1 = fz_refcount f0"
    "variate_tuple f1 ! 0 = rng_val g' 0 11"
    by (rule iofuzzer_randomize'_keeps_good [OF good0 rf0])
  have call: "iofuzzer_set_random (Some f) (Some g) = Inr (FUZZER, None, Some f1)"
    using s(1) by (simp add: iofuzzer_set_random_def Let_def f0 errno_then_def)
  show ?thesis
    using that [of f1] s call
    by (simp add: f0 g'_def [symmetric]) (simp add: f0_def g'_def rng_val_refcount)
qed


lemma fuzzer_good_refcount: "fuzzer_good (f\<lparr>fz_refcount := k\<rparr>) = fuzzer_good f"
  by (cases "variates f") (simp_all add: fuzzer_good_def fuzzer_wf_def fuzzer_invariant_def)

text \<open>\<^verbatim>\<open>iofuzzer_iterate_with_state\<close> step by step.\<close>

lemma iofuzzer_iterate_with_state_steps:
  assumes good: "fuzzer_good f" and r: "fz_random f = Some r"
    and c: "c = min (max n MINSIZE) MAXSIZE" and S: "c \<le> length S"
    and rS: "rS = r\<lparr>rnd_state := take c S @ drop c (rnd_state r)\<rparr>"
  obtains fV f' where
    "iofuzzer_set_state (Some f) (Some S) n = Inr (FUZZER, None, Some fV)"
    "iofuzzer_iterate dev (Some fV) = Inr (FUZZER, None, Some f')"
    "iofuzzer_iterate_with_state dev (Some f) (Some S) n = Inr (FUZZER, None, Some f')"
    "fuzzer_good fV" "fuzzer_good f'"
    "state fV = take 8 (rnd_state rS)" "fz_random fV = Some ((rng_next ^^ 515) rS)"
    "variate_tuple fV ! 0 = rng_val rS 0 11"
    "io_trace f' = io_trace f @ [dispatched (variate_tuple fV)]"
    "state f' = take 8 (rnd_state ((rng_next ^^ 515) rS))"
    "fz_random f' = Some ((rng_next ^^ 515) ((rng_next ^^ 515) rS))"
    "variate_tuple f' ! 0 = rng_val ((rng_next ^^ 515) rS) 0 11"
    "ports f' = ports f"
proof -
  obtain fV where s1: "iofuzzer_set_state' f (Some S) n = Inr (Some fV, None)" "fuzzer_good fV"
    "state fV = take 8 (take c S @ drop c (rnd_state r))"
    "fz_random fV = Some ((rng_next ^^ 515) (r\<lparr>rnd_state := take c S @ drop c (rnd_state r)\<rparr>))"
    "ports fV = ports f" "io_trace fV = io_trace f" "variate5 fV = variate5 f"
    "variate6 fV = variate6 f" "fz_refcount fV = fz_refcount f"
    "variate_tuple fV ! 0 = rng_val (r\<lparr>rnd_state := take c S @ drop c (rnd_state r)\<rparr>) 0 11"
    by (rule iofuzzer_set_state'_good [OF good r c S])
  have rV: "fz_random fV = Some ((rng_next ^^ 515) rS)"
    using s1(4) rS by simp
  obtain f' where s2: "iofuzzer_iterate' dev fV = Inr (f', None)" "fuzzer_good f'"
    "io_trace f' = io_trace fV @ [dispatched (variate_tuple fV)]"
    "state f' = take 8 (rnd_state ((rng_next ^^ 515) rS))"
    "fz_random f' = Some ((rng_next ^^ 515) ((rng_next ^^ 515) rS))"
    "ports f' = ports fV" "variate5 f' = variate5 fV" "variate6 f' = variate6 fV"
    "fz_refcount f' = fz_refcount fV" "variate_tuple f' ! 0 = rng_val ((rng_next ^^ 515) rS) 0 11"
    by (rule iofuzzer_iterate'_good [OF s1(2) rV])
  have a: "iofuzzer_set_state (Some f) (Some S) n = Inr (FUZZER, None, Some fV)"
    using s1(1) by (simp add: iofuzzer_set_state_def)
  have b: "iofuzzer_iterate dev (Some fV) = Inr (FUZZER, None, Some f')"
    using s2(1) by (simp add: iofuzzer_iterate_def)
  have c: "iofuzzer_iterate_with_state dev (Some f) (Some S) n = Inr (FUZZER, None, Some f')"
    using s1(1) s2(1) by (simp add: iofuzzer_iterate_with_state_def errno_then_def)
  show ?thesis
    using that [OF a b c s1(2) s2(2) _ rV _ _ s2(4,5,10)] s1 s2 rS by simp
qed

text \<open>Every admissible call that returns keeps a fuzzer in shape.\<close>

lemma iofuzzer_set_state_good:
  assumes good: "fuzzer_good f" and call: "iofuzzer_set_state (Some f) st n = Inr (p, e, Some f')"
  shows "fuzzer_good f'"
proof (cases st)
  case None
  then show ?thesis
    using call good by (simp add: iofuzzer_set_state_def)
next
  case (Some S)
  obtain r where r: "fz_random f = Some r" "length (rnd_state r) = 256"
    by (rule fuzzer_good_random [OF good])
  show ?thesis
  proof (cases "min (max n MINSIZE) MAXSIZE \<le> length S")
    case True
    obtain fV where s1: "iofuzzer_set_state' f (Some S) n = Inr (Some fV, None)" "fuzzer_good fV"
      by (rule iofuzzer_set_state'_good [OF good r(1) refl True])
    then show ?thesis
      using call Some by (simp add: iofuzzer_set_state_def)
  next
    case False
    then have "length S < min (max n MINSIZE) MAXSIZE"
      by (simp only: not_le)
    then have "iofuzzer_set_state' f (Some S) n = Inl OutOfBounds"
      using r by (intro iofuzzer_set_state'_overread [of f r]) (simp_all add: MAXSIZE_def)
    then show ?thesis
      using call Some by (simp add: iofuzzer_set_state_def)
  qed
qed

lemma iofuzzer_iterate_with_state_good:
  assumes good: "fuzzer_good f"
    and call: "iofuzzer_iterate_with_state dev (Some f) st n = Inr (p, e, Some f')"
  shows "fuzzer_good f'"
proof (cases st)
  case None
  then show ?thesis
    using call good by (simp add: iofuzzer_iterate_with_state_def iofuzzer_set_state'_def)
next
  case (Some S)
  obtain r where r: "fz_random f = Some r" "length (rnd_state r) = 256"
    by (rule fuzzer_good_random [OF good])
  show ?thesis
  proof (cases "min (max n MINSIZE) MAXSIZE \<le> length S")
    case True
    obtain fV :: iofuzzer and f2 where s: "iofuzzer_iterate_with_state dev (Some f) (Some S) n = Inr (FUZZER, None, Some f2)"
        "fuzzer_good f2"
      by (rule iofuzzer_iterate_with_state_steps [OF good r(1) refl True refl])
    then show ?thesis
      using call Some by simp
  next
    case False
    then have "length S < min (max n MINSIZE) MAXSIZE"
      by (simp only: not_le)
    then have "iofuzzer_set_state' f (Some S) n = Inl OutOfBounds"
      using r by (intro iofuzzer_set_state'_overread [of f r]) (simp_all add: MAXSIZE_def)
    then show ?thesis
      using call Some by (simp add: iofuzzer_iterate_with_state_def)
  qed
qed

lemma perform_good:
  assumes good: "fuzzer_good f" and adm: "admissible c" and call: "perform c f = Inr (Some f')"
  shows "fuzzer_good f'"
proof -
  obtain r where r: "fz_random f = Some r" "length (rnd_state r) = 256"
    by (rule fuzzer_good_random [OF good])
  show ?thesis
  proof (cases c)
    case (Iterate dev)
    obtain f2 where s: "iofuzzer_iterate' dev f = Inr (f2, None)" "fuzzer_good f2"
      by (rule iofuzzer_iterate'_good [OF good r(1)])
    then show ?thesis
      using call Iterate by (simp add: iofuzzer_iterate_def)
  next
    case (IterateWithState dev st n)
    then have "\<exists>p e. iofuzzer_iterate_with_state dev (Some f) st n = Inr (p, e, Some f')"
      using call by (cases "iofuzzer_iterate_with_state dev (Some f) st n") auto
    then show ?thesis
      using iofuzzer_iterate_with_state_good [OF good] by blast
  next
    case (SetPorts p)
    then have p: "case p of None \<Rightarrow> True | Some a \<Rightarrow> ports_readable a \<and> ports_in_range a"
      using adm by simp
    obtain f1 f2 where s:
      "iofuzzer_randomize' (f\<lparr>ports := array_ref p, fz_random := Some (r\<lparr>rnd_state := state f @ drop 8 (rnd_state r)\<rparr>)\<rparr>) = Inr (f1, None)"
      "iofuzzer_randomize' f1 = Inr (f2, None)"
      "iofuzzer_set_ports (Some f) p = Inr (FUZZER, (if p = None then Some EINVAL else None), Some f2)"
      "fuzzer_good f2"
      by (rule iofuzzer_set_ports_steps [OF good r(1) p refl])
    then show ?thesis
      using call SetPorts by simp
  next
    case (SetRandom g')
    then obtain g where g: "g' = Some g" "length (rnd_state g) = MAXSIZE"
      using adm by (cases g') simp_all
    obtain f1 where s:
      "iofuzzer_randomize' (f\<lparr>fz_random := random_ref (Some g)\<rparr>) = Inr (f1, None)"
      "iofuzzer_set_random (Some f) (Some g) = Inr (FUZZER, None, Some f1)"
      "fuzzer_good f1"
      by (rule iofuzzer_set_random_steps [OF good g(2)])
    then show ?thesis
      using call SetRandom g(1) by simp
  next
    case (SetState st n)
    then have "\<exists>p e. iofuzzer_set_state (Some f) st n = Inr (p, e, Some f')"
      using call by (cases "iofuzzer_set_state (Some f) st n") auto
    then show ?thesis
      using iofuzzer_set_state_good [OF good] by blast
  next
    case (SetVariates va)
    then show ?thesis using adm by simp
  next
    case Ref
    then show ?thesis
      using call good by (auto simp add: iofuzzer_ref_def fuzzer_good_refcount)
  next
    case Unref
    then show ?thesis
      using call good
      by (auto simp add: iofuzzer_unref_def iofuzzer_free_def Let_def fuzzer_good_refcount split: if_splits)
  qed
qed

lemma reachable_admissible_good: "reachable admissible f \<Longrightarrow> fuzzer_good f"
proof (induction rule: reachable.induct)
  case (new a5 a6 f)
  obtain f0 where "iofuzzer_new a5 a6 = Some (Inr (Some f0))" "fuzzer_good f0"
    by (rule iofuzzer_new_good [OF new(2,3,4)])
  then show ?case using new(1) by simp
next
  case (new_with_state a5 a6 st n f e)
  obtain f0 where f0: "iofuzzer_new a5 a6 = Some (Inr (Some f0))" "fuzzer_good f0"
    by (rule iofuzzer_new_good [OF new_with_state(2,3,4)])
  then have "\<exists>p e. iofuzzer_set_state (Some f0) st n = Inr (p, e, Some f)"
    using new_with_state(1)
    by (cases "iofuzzer_set_state (Some f0) st n")
      (auto simp add: iofuzzer_new_with_state_def split: if_splits)
  then show ?case
    using iofuzzer_set_state_good [OF f0(2)] by blast
next
  case (call f c f')
  then show ?case
    using perform_good by blast
qed


lemma le_val_le_bytes: "v < 256 ^ n \<Longrightarrow> le_val (le_bytes n v) = v"
proof (induction n arbitrary: v)
  case 0
  then show ?case by simp
next
  case (Suc n)
  have "v div 256 < 256 ^ n"
    using Suc.prems by (simp add: less_mult_imp_div_less mult.commute)
  then have "le_val (le_bytes n (v div 256)) = v div 256"
    by (rule Suc.IH)
  moreover have "unat (of_nat (v mod 256) :: byte) = v mod 256"
    by (simp add: unat_of_nat)
  ultimately show ?case
    by simp
qed

lemma funpow_numeral_unfold: "(f ^^ numeral k) x = (f ^^ pred_numeral k) (f x)"
  by (simp add: numeral_eq_Suc funpow_swap1)

lemma rng_seed_funpow:
  assumes "6 \<le> length (rnd_state r)"
  shows "le_val (take 6 (rnd_state ((rng_next ^^ n) r)))
           = (drand48_iterate ^^ n) (le_val (take 6 (rnd_state r)))"
proof (induction n)
  case 0
  then show ?case by simp
next
  case (Suc n)
  have "drand48_iterate x < 256 ^ 6" for x
    using drand48_iterate_less [of x] by simp
  then have "le_val (le_bytes 6 (drand48_iterate x)) = drand48_iterate x" for x
    by (rule le_val_le_bytes)
  then show ?case
    using Suc by (simp add: rng_next_def erand48_def Let_def)
qed


lemma drand48_515_0: "(drand48_iterate ^^ 515) 0 = 0x34c00563f33d"
  by (simp add: funpow_numeral_unfold drand48_iterate_def)



lemma iofuzzer_set_random_null:
  assumes "fuzzer_wf f"
  shows "iofuzzer_set_random (Some f) None = Inl NullDeref"
proof -
  obtain va where va: "variates f = Some va"
    using assms by (auto simp add: fuzzer_wf_def split: option.splits)
  show ?thesis
    using va
    by (simp add: iofuzzer_set_random_def random_ref_def iofuzzer_randomize'_def random_get_state_def
        draw_def random_number_with_range_def random_ulong_with_range_def random_double_def)
qed

text \<open>The fuzzer that \<^verbatim>\<open>iofuzzer_new\<close> returns, and \<^verbatim>\<open>iofuzzer_set_ports\<close> with a null
  list on it.\<close>

lemma iofuzzer_new_set_ports_null:
  obtains f f2 where "iofuzzer_new 0x1000 0x2000 = Some (Inr (Some f))" "fuzzer_good f"
    "state f = replicate 8 0" "fz_random f = Some ((rng_next ^^ 515) random_new)"
    "iofuzzer_set_ports (Some f) None = Inr (FUZZER, Some EINVAL, Some f2)"
    "fuzzer_good f2" "ports f2 = None"
    "state f2 = take 8 (rnd_state ((rng_next ^^ 515) random_new))"
    "fz_random f2 = Some ((rng_next ^^ 515) ((rng_next ^^ 515) random_new))"
proof -
  have a: "(0x1000 :: ulong) \<noteq> 0" "(0x2000 :: ulong) \<noteq> 0" "(0x1000 :: ulong) \<noteq> 0x2000"
    by simp_all
  obtain f where f: "iofuzzer_new 0x1000 0x2000 = Some (Inr (Some f))" "fuzzer_good f"
    "state f = replicate 8 0" "fz_random f = Some ((rng_next ^^ 515) random_new)"
    "ports f = None" "io_trace f = []" "variate5 f = 0x1000" "variate6 f = 0x2000" "fz_refcount f = 1"
    by (rule iofuzzer_new_good [OF a])
  have p: "case (None :: ulong array option) of None \<Rightarrow> True | Some a \<Rightarrow> ports_readable a \<and> ports_in_range a"
    by simp
  have r0: "random_new
      = ((rng_next ^^ 515) random_new)\<lparr>rnd_state := state f @ drop 8 (rnd_state ((rng_next ^^ 515) random_new))\<rparr>"
    using rng_rewind [of random_new 515] f(3) by (simp add: random_new_def MAXSIZE_def)
  obtain f1 f2 where s:
    "iofuzzer_randomize' (f\<lparr>ports := array_ref None, fz_random := Some random_new\<rparr>) = Inr (f1, None)"
    "iofuzzer_randomize' f1 = Inr (f2, None)"
    "iofuzzer_set_ports (Some f) None
       = Inr (FUZZER, (if (None :: ulong array option) = None then Some EINVAL else None), Some f2)"
    "fuzzer_good f2" "state f1 = state f" "fz_random f1 = Some ((rng_next ^^ 515) random_new)"
    "state f2 = take 8 (rnd_state ((rng_next ^^ 515) random_new))"
    "fz_random f2 = Some ((rng_next ^^ 515) ((rng_next ^^ 515) random_new))"
    "variate_tuple f1 ! 0 = rng_val random_new 0 11"
    "variate_tuple f2 ! 0 = rng_val ((rng_next ^^ 515) random_new) 0 11"
    "ports f2 = array_ref None" "io_trace f2 = io_trace f"
    by (rule iofuzzer_set_ports_steps [OF f(2) f(4) p r0])
  have call: "iofuzzer_set_ports (Some f) None = Inr (FUZZER, Some EINVAL, Some f2)"
    using s(3) by simp
  have p2: "ports f2 = None"
    using s(11) by (simp add: array_ref_def)
  show ?thesis
    by (rule that [OF f(1,2,3,4) call s(4) p2 s(7,8)])
qed

lemma state_after_515_draws:
  "le_val (take 6 (take 8 (rnd_state ((rng_next ^^ 515) random_new)))) = 0x34c00563f33d"
proof -
  have "6 \<le> length (rnd_state random_new)"
    by (simp add: random_new_def MAXSIZE_def)
  then have "le_val (take 6 (rnd_state ((rng_next ^^ 515) random_new)))
      = (drand48_iterate ^^ 515) (le_val (take 6 (rnd_state random_new)))"
    by (rule rng_seed_funpow)
  also have "le_val (take 6 (rnd_state random_new)) = 0"
    by (simp add: random_new_def MAXSIZE_def replicate_numeral_Cons)
  finally show ?thesis
    by (simp add: drand48_515_0)
qed

















section \<open>The growth of an array\<close>







text \<open>Above \<open>2^24\<close> the products are rounded: from a capacity of 16777217 bytes, which
  as a \<^verbatim>\<open>float\<close> is 16777216, the loop reaches 33554432 in its first round, which is below
  the 33554434 bytes that two elements need, and 134217728 in its second.\<close>

lemma array_grow_loop_rounds: "array_grow_loop 2 33554434 (Suc 0) 16777217 = Some (Inr 134217728)"
  by (simp add: array_grow_loop.simps float_round_def bit_length.simps Let_def)









section \<open>Port specifications\<close>

lemma strtoul_0x10000: "strtoul ''0x10000'' = (0x10000, None)"
  by (simp add: strtoul_def strto_unsigned_def isspace_def digit_value_def Let_def)

lemma parse_range_single: "parse_range ''0x10000'' = FromTo 0x10000 0x10000"
  by (simp add: parse_range_def strtok_r_def strtoul_0x10000)

lemma parse_range_low_bound: "parse_range ''0x10000-0x20000'' = FromTo 0x10000 0xffff"
  by (simp add: parse_range_def strtok_r_def strtoul_def strto_unsigned_def isspace_def digit_value_def
      Let_def MAXPORT_def)

lemma array_append_val_0x10000:
  "array_append_val (Some (array_new 4)) (0x10000 :: ulong)
     = Some (Inr (Some \<lparr>arr_data = Some 0x10000 # replicate 15 (Some 0), arr_refcount = 1,
          element_size = 4, growth_factor = 2, arr_length = 1, arr_size = 4\<rparr>))"
  by (simp add: array_append_val_def array_append_vals_def array_set_length'_def array_shrink'_def
     array_length_to_size_def array_new_def MINLENGTH_def replicate_numeral_Cons)

lemma append_ports_single:
  "append_ports (Some (array_new 4)) 0x10000 0x10000
     = Some (Inr (Some \<lparr>arr_data = Some 0x10000 # replicate 15 (Some 0), arr_refcount = 1,
          element_size = 4, growth_factor = 2, arr_length = 1, arr_size = 4\<rparr>))"
  by (subst append_ports.simps, simp add: array_append_val_0x10000, subst append_ports.simps, simp)

lemma append_ports_low_bound:
  "append_ports (Some (array_new 4)) 0x10000 0xffff = Some (Inr (Some (array_new 4)))"
  by (subst append_ports.simps, simp)

text \<open>
  Claim C5 at two failing inputs.  The only clamp in \<^verbatim>\<open>iofuzzer_parse_ports\<close> is on the
  high bound of a range.  The single token \<^verbatim>\<open>0x10000\<close> puts the port \<open>0x10000\<close> into the
  list, and the range \<^verbatim>\<open>0x10000-0x20000\<close>, whose low bound is above \<open>0xffff\<close>, puts nothing
  into it.
\<close>

theorem parse_ports_above_maxport:
  "iofuzzer_parse_ports (Some ''0x10000'')
     = Some (Inr (Some \<lparr>arr_data = Some 0x10000 # replicate 15 (Some 0), arr_refcount = 1,
          element_size = 4, growth_factor = 2, arr_length = 1, arr_size = 4\<rparr>))
   \<and> iofuzzer_parse_ports (Some ''0x10000-0x20000'') = Some (Inr (Some (array_new 4)))"
  apply (simp add: iofuzzer_parse_ports_def)
  apply (subst parse_ports_loop.simps)
  apply (simp add: strtok_r_def parse_range_single append_ports_single)
  apply (subst parse_ports_loop.simps)
  apply (simp add: strtok_r_def)
  apply (subst parse_ports_loop.simps)
  apply (simp add: strtok_r_def parse_range_low_bound append_ports_low_bound)
  apply (subst parse_ports_loop.simps)
  apply (simp add: strtok_r_def)
  done

section \<open>The public functions of the fuzzer\<close>

text \<open>
  Claim C9.  For a fuzzer and an output buffer that are not null,
  \<^verbatim>\<open>iofuzzer_get_state(fuzzer, state, size)\<close> copies the 8 bytes of the stored snapshot to
  the start of the buffer and returns the fuzzer, whatever \<open>size\<close> is: the result does
  not depend on \<open>size\<close>.  A buffer of fewer than 8 bytes is overrun.
\<close>

theorem iofuzzer_get_state_ignores_size:
  assumes "length (state f) = 8"
  shows "iofuzzer_get_state (Some f) (Some buf) size'
           = (if length buf < 8 then Inl OutOfBounds
              else Inr ((FUZZER, Some (state f @ drop 8 buf)), None, Some f))"
  using assms by (simp add: iofuzzer_get_state_def memcpy_def)

theorem iofuzzer_get_state_ignores_size_witness:
  "iofuzzer_get_state (Some ((blank_fuzzer 0x1000 0x2000)\<lparr>state := [1, 2, 3, 4, 5, 6, 7, 8]\<rparr>))
       (Some [0x10, 0x20, 0x30, 0x40, 0x50, 0x60, 0x70, 0x80, 0x90, 0xa0]) 2
     = Inr ((FUZZER, Some [1, 2, 3, 4, 5, 6, 7, 8, 0x90, 0xa0]), None,
            Some ((blank_fuzzer 0x1000 0x2000)\<lparr>state := [1, 2, 3, 4, 5, 6, 7, 8]\<rparr>))
   \<and> iofuzzer_get_state (Some ((blank_fuzzer 0x1000 0x2000)\<lparr>state := [1, 2, 3, 4, 5, 6, 7, 8]\<rparr>))
       (Some [0x10, 0x20]) 2
     = Inl OutOfBounds"
proof -
  let ?f = "(blank_fuzzer 0x1000 0x2000)\<lparr>state := [1, 2, 3, 4, 5, 6, 7, 8]\<rparr>"
  have h: "length (state ?f) = 8"
    by simp
  show ?thesis
    using iofuzzer_get_state_ignores_size [OF h, of "[0x10, 0x20, 0x30, 0x40, 0x50, 0x60, 0x70, 0x80, 0x90, 0xa0]" 2]
      iofuzzer_get_state_ignores_size [OF h, of "[0x10, 0x20]" 2]
    by simp
qed



section \<open>The variates in the reachable states\<close>

text \<open>
  Claim C2, as stated, for every call of a public function: refuted.
  \<^verbatim>\<open>iofuzzer_set_variates\<close> installs whatever array it is given, so after
  \<^verbatim>\<open>iofuzzer_set_variates(fuzzer, array_new(4))\<close> on a new fuzzer the variate array has
  length 0.
\<close>

theorem variates_invariant_counterexample:
  "\<not> (\<forall>f. reachable (\<lambda>c. True) f \<longrightarrow> fuzzer_invariant f)"
proof
  assume all: "\<forall>f. reachable (\<lambda>c. True) f \<longrightarrow> fuzzer_invariant f"
  have a: "(0x1000 :: ulong) \<noteq> 0" "(0x2000 :: ulong) \<noteq> 0" "(0x1000 :: ulong) \<noteq> 0x2000"
    by simp_all
  obtain f where f: "iofuzzer_new 0x1000 0x2000 = Some (Inr (Some f))" "fuzzer_good f"
    by (rule iofuzzer_new_good [OF a])
  have r: "reachable (\<lambda>c. True) f"
    by (rule reachable.new [OF f(1) a])
  define f' where "f' = f\<lparr>variates := array_ref (Some (array_new 4))\<rparr>"
  have p: "perform (SetVariates (Some (array_new 4))) f = Inr (Some f')"
    by (simp add: iofuzzer_set_variates_def f'_def)
  have "reachable (\<lambda>c. True) f'"
    by (rule reachable.call [OF r _ p]) simp
  then have "fuzzer_invariant f'"
    by (rule all [rule_format])
  then show False
    by (simp add: fuzzer_invariant_def f'_def array_ref_def array_new_def)
qed

text \<open>
  Claim C2, amended.  In every state that is reached from construction by calls other
  than \<^verbatim>\<open>iofuzzer_set_variates\<close>, where every port list handed over is null or readable
  with elements of at most \<^verbatim>\<open>MAXPORT\<close> and every generator handed over is not null, the
  variate array has length 7, slot 0 is in \<open>[0, 11]\<close>, slot 3 in \<open>[1, 64]\<close> and slot 4
  in \<open>[0, 0xffff]\<close>.
\<close>

theorem variates_invariant_admissible: "reachable admissible f \<Longrightarrow> fuzzer_invariant f"
proof -
  assume "reachable admissible f"
  then have "fuzzer_good f"
    by (rule reachable_admissible_good)
  then show ?thesis
    by (simp add: fuzzer_good_def)
qed

theorem variates_invariant_admissible_witness:
  "\<exists>f f'. iofuzzer_new 0x1000 0x2000 = Some (Inr (Some f))
      \<and> perform (Iterate (\<lambda>_. 0)) f = Inr (Some f')
      \<and> reachable admissible f' \<and> fuzzer_invariant f'"
proof -
  have a: "(0x1000 :: ulong) \<noteq> 0" "(0x2000 :: ulong) \<noteq> 0" "(0x1000 :: ulong) \<noteq> 0x2000"
    by simp_all
  obtain f where f: "iofuzzer_new 0x1000 0x2000 = Some (Inr (Some f))" "fuzzer_good f"
    by (rule iofuzzer_new_good [OF a])
  obtain r where r: "fz_random f = Some r" "length (rnd_state r) = 256"
    by (rule fuzzer_good_random [OF f(2)])
  obtain f' where s: "iofuzzer_iterate' (\<lambda>_. 0) f = Inr (f', None)" "fuzzer_good f'"
    by (rule iofuzzer_iterate'_good [OF f(2) r(1)])
  have p: "perform (Iterate (\<lambda>_. 0)) f = Inr (Some f')"
    using s(1) by (simp add: iofuzzer_iterate_def)
  have reach0: "reachable admissible f"
    by (rule reachable.new [OF f(1) a])
  have reach: "reachable admissible f'"
    by (rule reachable.call [OF reach0 _ p]) simp
  show ?thesis
    by (intro exI [of _ f] exI [of _ f'] conjI f(1) p reach variates_invariant_admissible [OF reach])
qed

section \<open>Null arguments\<close>

text \<open>
  Claim C8, as stated: refuted.  On a new fuzzer \<^verbatim>\<open>iofuzzer_set_ports\<close> with a null port
  list returns the fuzzer, not \<^verbatim>\<open>NULL\<close>, and has replaced the snapshot, which was 0, by
  one that starts with the bytes of \<^verbatim>\<open>0x34c00563f33d\<close>; \<^verbatim>\<open>iofuzzer_set_random\<close> with a
  null generator dereferences the null pointer.
\<close>

theorem null_arguments_counterexample:
  "\<exists>f f'. iofuzzer_new 0x1000 0x2000 = Some (Inr (Some f))
     \<and> iofuzzer_set_ports (Some f) None = Inr (FUZZER, Some EINVAL, Some f')
     \<and> le_val (take 6 (state f)) = 0 \<and> le_val (take 6 (state f')) = 0x34c00563f33d
     \<and> state f' \<noteq> state f
     \<and> iofuzzer_set_random (Some f) None = Inl NullDeref"
proof -
  obtain f f2 where s: "iofuzzer_new 0x1000 0x2000 = Some (Inr (Some f))" "fuzzer_good f"
    "state f = replicate 8 0" "fz_random f = Some ((rng_next ^^ 515) random_new)"
    "iofuzzer_set_ports (Some f) None = Inr (FUZZER, Some EINVAL, Some f2)"
    "fuzzer_good f2" "ports f2 = None"
    "state f2 = take 8 (rnd_state ((rng_next ^^ 515) random_new))"
    "fz_random f2 = Some ((rng_next ^^ 515) ((rng_next ^^ 515) random_new))"
    by (rule iofuzzer_new_set_ports_null)
  have v: "le_val (take 6 (state f)) = 0"
    using s(3) by (simp add: replicate_numeral_Cons)
  have v2: "le_val (take 6 (state f2)) = 0x34c00563f33d"
    using s(8) state_after_515_draws by simp
  have ne: "state f2 \<noteq> state f"
    using v v2 by auto
  have "fuzzer_wf f"
    using s(2) by (simp add: fuzzer_good_def)
  then have n: "iofuzzer_set_random (Some f) None = Inl NullDeref"
    by (rule iofuzzer_set_random_null)
  show ?thesis
    by (intro exI [of _ f] exI [of _ f2] conjI s(1) s(5) v v2 ne n)
qed

text \<open>
  Claim C8, amended.  Every function of \<^verbatim>\<open>iofuzzer.h\<close> that takes a fuzzer does nothing
  but return when the fuzzer is null: \<^verbatim>\<open>iofuzzer_free\<close> and \<^verbatim>\<open>iofuzzer_unref\<close> without
  setting \<^verbatim>\<open>errno\<close>, and every other one with the value \<^verbatim>\<open>NULL\<close> (a null array or generator
  from the getters) and \<^verbatim>\<open>errno = EINVAL\<close>.  With a fuzzer and a null state buffer,
  \<^verbatim>\<open>iofuzzer_get_state\<close>, \<^verbatim>\<open>iofuzzer_set_state\<close> and \<^verbatim>\<open>iofuzzer_iterate_with_state\<close> return
  \<^verbatim>\<open>NULL\<close> with \<^verbatim>\<open>errno = EINVAL\<close> and leave the fuzzer as it was, and
  \<^verbatim>\<open>iofuzzer_new_with_state\<close> with a null state returns \<^verbatim>\<open>NULL\<close> with \<^verbatim>\<open>errno = EINVAL\<close>.
  \<^verbatim>\<open>iofuzzer_set_ports\<close> with a null port list does not fail: it returns the fuzzer,
  which then has no port list and new variates, and \<^verbatim>\<open>errno\<close> is \<^verbatim>\<open>EINVAL\<close> only because
  \<^verbatim>\<open>array_ref\<close> has set it.
\<close>

theorem null_arguments:
  assumes "fuzzer_good f" and "a5 \<noteq> 0" and "a6 \<noteq> 0" and "a5 \<noteq> a6"
  shows "iofuzzer_free None = (NULL, None, None)
     \<and> iofuzzer_get_ports None = (None, Some EINVAL, None)
     \<and> iofuzzer_get_random None = (None, Some EINVAL, None)
     \<and> iofuzzer_get_state None st n = Inr ((NULL, st), Some EINVAL, None)
     \<and> iofuzzer_get_variates None = (None, Some EINVAL, None)
     \<and> iofuzzer_iterate dev None = Inr (NULL, Some EINVAL, None)
     \<and> iofuzzer_iterate_with_state dev None st n = Inr (NULL, Some EINVAL, None)
     \<and> iofuzzer_ref None = (NULL, Some EINVAL, None)
     \<and> iofuzzer_set_ports None p = Inr (NULL, Some EINVAL, None)
     \<and> iofuzzer_set_random None g = Inr (NULL, Some EINVAL, None)
     \<and> iofuzzer_set_state None st n = Inr (NULL, Some EINVAL, None)
     \<and> iofuzzer_set_variates None va = (NULL, Some EINVAL, None)
     \<and> iofuzzer_unref None = None
     \<and> iofuzzer_get_state (Some f) None n = Inr ((NULL, None), Some EINVAL, Some f)
     \<and> iofuzzer_set_state (Some f) None n = Inr (NULL, Some EINVAL, Some f)
     \<and> iofuzzer_iterate_with_state dev (Some f) None n = Inr (NULL, Some EINVAL, Some f)
     \<and> iofuzzer_new_with_state a5 a6 None n = Some (Inr (None, Some EINVAL))
     \<and> (\<exists>f'. iofuzzer_set_ports (Some f) None = Inr (FUZZER, Some EINVAL, Some f')
              \<and> ports f' = None \<and> fuzzer_good f')"
proof -
  obtain r where r: "fz_random f = Some r" "length (rnd_state r) = 256"
    by (rule fuzzer_good_random [OF assms(1)])
  have p: "case (None :: ulong array option) of None \<Rightarrow> True | Some a \<Rightarrow> ports_readable a \<and> ports_in_range a"
    by simp
  obtain f1 f2 where s:
    "iofuzzer_randomize' (f\<lparr>ports := array_ref None, fz_random := Some (r\<lparr>rnd_state := state f @ drop 8 (rnd_state r)\<rparr>)\<rparr>) = Inr (f1, None)"
    "iofuzzer_randomize' f1 = Inr (f2, None)"
    "iofuzzer_set_ports (Some f) None
       = Inr (FUZZER, (if (None :: ulong array option) = None then Some EINVAL else None), Some f2)"
    "fuzzer_good f2" "state f1 = state f"
    "fz_random f1 = Some ((rng_next ^^ 515) (r\<lparr>rnd_state := state f @ drop 8 (rnd_state r)\<rparr>))"
    "state f2 = take 8 (rnd_state ((rng_next ^^ 515) (r\<lparr>rnd_state := state f @ drop 8 (rnd_state r)\<rparr>)))"
    "fz_random f2 = Some ((rng_next ^^ 515) ((rng_next ^^ 515) (r\<lparr>rnd_state := state f @ drop 8 (rnd_state r)\<rparr>)))"
    "variate_tuple f1 ! 0 = rng_val (r\<lparr>rnd_state := state f @ drop 8 (rnd_state r)\<rparr>) 0 11"
    "variate_tuple f2 ! 0 = rng_val ((rng_next ^^ 515) (r\<lparr>rnd_state := state f @ drop 8 (rnd_state r)\<rparr>)) 0 11"
    "ports f2 = array_ref None" "io_trace f2 = io_trace f"
    by (rule iofuzzer_set_ports_steps [OF assms(1) r(1) p refl])
  have sp: "\<exists>f'. iofuzzer_set_ports (Some f) None = Inr (FUZZER, Some EINVAL, Some f')
              \<and> ports f' = None \<and> fuzzer_good f'"
    using s(3,4,11) by (intro exI [of _ f2]) (simp add: array_ref_def)
  obtain f0 where f0: "iofuzzer_new a5 a6 = Some (Inr (Some f0))" "fuzzer_good f0"
    by (rule iofuzzer_new_good [OF assms(2,3,4)])
  have nw: "iofuzzer_new_with_state a5 a6 None n = Some (Inr (None, Some EINVAL))"
    using f0(1) by (simp add: iofuzzer_new_with_state_def iofuzzer_set_state_def)
  show ?thesis
    using sp nw
    by (simp add: iofuzzer_free_def iofuzzer_get_ports_def iofuzzer_get_random_def
        iofuzzer_get_variates_def iofuzzer_get_state_def iofuzzer_iterate_def
        iofuzzer_iterate_with_state_def iofuzzer_ref_def iofuzzer_set_ports_def
        iofuzzer_set_random_def iofuzzer_set_state_def iofuzzer_set_variates_def iofuzzer_unref_def
        iofuzzer_set_state'_def)
qed

theorem null_arguments_witness:
  "\<exists>f f'. iofuzzer_new 0x1000 0x2000 = Some (Inr (Some f))
     \<and> iofuzzer_set_state (Some f) None 8 = Inr (NULL, Some EINVAL, Some f)
     \<and> iofuzzer_new_with_state 0x1000 0x2000 None 8 = Some (Inr (None, Some EINVAL))
     \<and> iofuzzer_set_ports (Some f) None = Inr (FUZZER, Some EINVAL, Some f')
     \<and> ports f' = None"
proof -
  have a: "(0x1000 :: ulong) \<noteq> 0" "(0x2000 :: ulong) \<noteq> 0" "(0x1000 :: ulong) \<noteq> 0x2000"
    by simp_all
  obtain f where f: "iofuzzer_new 0x1000 0x2000 = Some (Inr (Some f))" "fuzzer_good f"
    by (rule iofuzzer_new_good [OF a])
  from null_arguments [OF f(2) a, where st = None and n = 8 and dev = "\<lambda>_. 0" and p = None
      and g = None and va = None]
  obtain f' where
    "iofuzzer_set_state (Some f) None 8 = Inr (NULL, Some EINVAL, Some f)"
    "iofuzzer_new_with_state 0x1000 0x2000 None 8 = Some (Inr (None, Some EINVAL))"
    "iofuzzer_set_ports (Some f) None = Inr (FUZZER, Some EINVAL, Some f')" "ports f' = None"
    by (elim exE conjE)
  then show ?thesis
    using f(1) by (intro exI [of _ f] exI [of _ f'] conjI)
qed

section \<open>Replaying a state\<close>




section \<open>The state field of a log line\<close>




end
